theory Spec2Isabelle
  imports Complex_Main "HOL-Library.Log_Nat" "HOL-Library.Sublist"
begin

section \<open>Python values\<close>

text \<open>
  The engine (\<^verbatim>\<open>src/engine.py\<close>) works on whatever \<^verbatim>\<open>json.load\<close> returns, so the
  model is dynamically typed: a value is one of the JSON shapes, and every operation that
  Python rejects at run time returns the exception instead of a value.
\<close>

datatype exn = TypeError | AttributeError | KeyError | IndexError | OverflowError
  | ZeroDivisionError | OSError

text \<open>
  A Python \<^verbatim>\<open>float\<close> is an IEEE 754 binary64 number. A finite one is carried as the
  rational it denotes (the sign of zero is not represented: no operation of the engine
  observes it).
\<close>

datatype pyfloat = Fin rat | PosInf | NegInf | NaN

text \<open>
  Strings are sequences of code points below 256; a \<^verbatim>\<open>dict\<close> with string keys is an
  association list read with \<^const>\<open>map_of\<close>.
\<close>

datatype pyval = PNone | PBool bool | PInt int | PFloat pyfloat | PStr string
  | PList "pyval list" | PDict "(string \<times> pyval) list"

datatype num = I int | F pyfloat

type_synonym 'a result = "exn + 'a"

definition bind :: "'a result \<Rightarrow> ('a \<Rightarrow> 'b result) \<Rightarrow> 'b result" where
  "bind m f = (case m of Inl e \<Rightarrow> Inl e | Inr v \<Rightarrow> f v)"

section \<open>Binary64 arithmetic\<close>

definition pow2 :: "int \<Rightarrow> rat" where
  "pow2 k = (if 0 \<le> k then 2 ^ nat k else 1 / 2 ^ nat (- k))"

text \<open>\<open>ilog2 q\<close> is \<open>\<lfloor>log\<^sub>2 q\<rfloor>\<close> for a positive rational.\<close>

definition ilog2 :: "rat \<Rightarrow> int" where
  "ilog2 q = (case quotient_of q of (a, b) \<Rightarrow>
     (let k = bitlen a - bitlen b in if pow2 k \<le> q then k else k - 1))"

definition round_half_even :: "rat \<Rightarrow> int" where
  "round_half_even x =
     (let f = \<lfloor>x\<rfloor>; d = x - of_int f
      in if d < 1 / 2 then f else if 1 / 2 < d then f + 1 else if even f then f else f + 1)"

text \<open>
  The nearest number with a 53-bit significand and an exponent of at least \<open>-1022\<close>
  (below that the spacing stays \<open>2\<^sup>-\<^sup>1\<^sup>0\<^sup>7\<^sup>4\<close>: the subnormals), ties to the even significand.
\<close>

definition round_binary64 :: "rat \<Rightarrow> rat" where
  "round_binary64 q =
     (if q = 0 then 0
      else (let e = max (ilog2 \<bar>q\<bar>) (- 1022); u = pow2 (e - 52)
            in of_int (round_half_even (q / u)) * u))"

definition overflow_threshold :: rat where
  "overflow_threshold = 2 ^ 1024"

text \<open>The result of a float operation whose exact value is \<open>q\<close>.\<close>

definition to_float :: "rat \<Rightarrow> pyfloat" where
  "to_float q =
     (let r = round_binary64 q
      in if overflow_threshold \<le> r then PosInf
         else if r \<le> - overflow_threshold then NegInf else Fin r)"

fun fneg :: "pyfloat \<Rightarrow> pyfloat" where
  "fneg (Fin a) = Fin (- a)"
| "fneg PosInf = NegInf"
| "fneg NegInf = PosInf"
| "fneg NaN = NaN"

fun fadd :: "pyfloat \<Rightarrow> pyfloat \<Rightarrow> pyfloat" where
  "fadd (Fin a) (Fin b) = to_float (a + b)"
| "fadd NaN y = NaN"
| "fadd x NaN = NaN"
| "fadd PosInf NegInf = NaN"
| "fadd NegInf PosInf = NaN"
| "fadd PosInf y = PosInf"
| "fadd NegInf y = NegInf"
| "fadd (Fin a) y = y"

definition fsub :: "pyfloat \<Rightarrow> pyfloat \<Rightarrow> pyfloat" where
  "fsub x y = fadd x (fneg y)"

text \<open>The sign of a float: \<open>1\<close>, \<open>0\<close> or \<open>-1\<close> (\<open>0\<close> also for NaN).\<close>

fun fsgn :: "pyfloat \<Rightarrow> int" where
  "fsgn (Fin a) = (if 0 < a then 1 else if a < 0 then - 1 else 0)"
| "fsgn PosInf = 1"
| "fsgn NegInf = - 1"
| "fsgn NaN = 0"

definition signed_inf :: "int \<Rightarrow> pyfloat" where
  "signed_inf s = (if 0 < s then PosInf else if s < 0 then NegInf else NaN)"

fun fmul :: "pyfloat \<Rightarrow> pyfloat \<Rightarrow> pyfloat" where
  "fmul (Fin a) (Fin b) = to_float (a * b)"
| "fmul NaN y = NaN"
| "fmul x NaN = NaN"
| "fmul x y = signed_inf (fsgn x * fsgn y)"

text \<open>Float division by a non-zero float (Python raises on a zero divisor before dividing).\<close>

fun fdiv :: "pyfloat \<Rightarrow> pyfloat \<Rightarrow> pyfloat" where
  "fdiv (Fin a) (Fin b) = to_float (a / b)"
| "fdiv NaN y = NaN"
| "fdiv x NaN = NaN"
| "fdiv (Fin a) y = Fin 0"
| "fdiv x (Fin b) = signed_inf (fsgn x * fsgn (Fin b))"
| "fdiv x y = NaN"

fun flt :: "pyfloat \<Rightarrow> pyfloat \<Rightarrow> bool" where
  "flt (Fin a) (Fin b) = (a < b)"
| "flt NaN y = False"
| "flt x NaN = False"
| "flt x NegInf = False"
| "flt PosInf y = False"
| "flt x y = True"

fun fle :: "pyfloat \<Rightarrow> pyfloat \<Rightarrow> bool" where
  "fle (Fin a) (Fin b) = (a \<le> b)"
| "fle NaN y = False"
| "fle x NaN = False"
| "fle NegInf y = True"
| "fle x PosInf = True"
| "fle x y = False"

section \<open>Python numbers\<close>

text \<open>\<^verbatim>\<open>float(i)\<close> as mixed arithmetic performs it: correctly rounded, \<^verbatim>\<open>OverflowError\<close> beyond the range.\<close>

definition int_to_float :: "int \<Rightarrow> pyfloat result" where
  "int_to_float i =
     (let r = round_binary64 (of_int i)
      in if overflow_threshold \<le> \<bar>r\<bar> then Inl OverflowError else Inr (Fin r))"

fun num_to_float :: "num \<Rightarrow> pyfloat result" where
  "num_to_float (I i) = int_to_float i"
| "num_to_float (F x) = Inr x"

fun as_num :: "pyval \<Rightarrow> num result" where
  "as_num (PInt i) = Inr (I i)"
| "as_num (PBool b) = Inr (I (if b then 1 else 0))"
| "as_num (PFloat x) = Inr (F x)"
| "as_num v = Inl TypeError"

fun num_sub :: "num \<Rightarrow> num \<Rightarrow> num result" where
  "num_sub (I a) (I b) = Inr (I (a - b))"
| "num_sub x y = bind (num_to_float x) (\<lambda>a. bind (num_to_float y) (\<lambda>b. Inr (F (fsub a b))))"

fun num_add :: "num \<Rightarrow> num \<Rightarrow> num result" where
  "num_add (I a) (I b) = Inr (I (a + b))"
| "num_add x y = bind (num_to_float x) (\<lambda>a. bind (num_to_float y) (\<lambda>b. Inr (F (fadd a b))))"

fun num_mul :: "num \<Rightarrow> num \<Rightarrow> num result" where
  "num_mul (I a) (I b) = Inr (I (a * b))"
| "num_mul x y = bind (num_to_float x) (\<lambda>a. bind (num_to_float y) (\<lambda>b. Inr (F (fmul a b))))"

text \<open>
  True division \<^verbatim>\<open>x / y\<close>. On two integers CPython rounds the exact quotient once and
  raises \<^verbatim>\<open>OverflowError\<close> when it does not fit.
\<close>

fun num_truediv :: "num \<Rightarrow> num \<Rightarrow> num result" where
  "num_truediv (I a) (I b) =
     (if b = 0 then Inl ZeroDivisionError
      else (let r = round_binary64 (of_int a / of_int b)
            in if overflow_threshold \<le> \<bar>r\<bar> then Inl OverflowError else Inr (F (Fin r))))"
| "num_truediv x y =
     bind (num_to_float x) (\<lambda>a. bind (num_to_float y) (\<lambda>b.
       if b = Fin 0 then Inl ZeroDivisionError else Inr (F (fdiv a b))))"

text \<open>Comparisons between \<^verbatim>\<open>int\<close> and \<^verbatim>\<open>float\<close> are exact in Python.\<close>

fun exact :: "num \<Rightarrow> pyfloat" where
  "exact (I i) = Fin (of_int i)"
| "exact (F x) = x"

definition num_lt :: "num \<Rightarrow> num \<Rightarrow> bool" where
  "num_lt x y = flt (exact x) (exact y)"

definition num_le :: "num \<Rightarrow> num \<Rightarrow> bool" where
  "num_le x y = fle (exact x) (exact y)"

text \<open>
  \<^verbatim>\<open>max(a, b)\<close> keeps \<open>a\<close> unless \<open>b > a\<close>; \<^verbatim>\<open>min(a, b)\<close> keeps \<open>a\<close> unless \<open>b < a\<close>.
\<close>

definition py_max :: "num \<Rightarrow> num \<Rightarrow> num" where
  "py_max a b = (if num_lt a b then b else a)"

definition py_min :: "num \<Rightarrow> num \<Rightarrow> num" where
  "py_min a b = (if num_lt b a then b else a)"

fun num_val :: "num \<Rightarrow> pyval" where
  "num_val (I i) = PInt i"
| "num_val (F x) = PFloat x"

section \<open>Strings and containers\<close>

text \<open>\<^verbatim>\<open>str.lower\<close> on code points below 256.\<close>

definition lower_char :: "char \<Rightarrow> char" where
  "lower_char c =
     (let n = (of_char c :: nat)
      in if 65 \<le> n \<and> n \<le> 90 then char_of (n + 32)
         else if n = 215 then c
         else if 192 \<le> n \<and> n \<le> 222 then char_of (n + 32) else c)"

definition lower :: "string \<Rightarrow> string" where
  "lower s = map lower_char s"

text \<open>\<^verbatim>\<open>sub in s\<close> on strings.\<close>

fun contains :: "string \<Rightarrow> string \<Rightarrow> bool" where
  "contains sub [] = (sub = [])"
| "contains sub (c # cs) = (prefix sub (c # cs) \<or> contains sub cs)"

fun py_lower :: "pyval \<Rightarrow> string result" where
  "py_lower (PStr s) = Inr (lower s)"
| "py_lower v = Inl AttributeError"

text \<open>\<^verbatim>\<open>not v\<close>.\<close>

fun py_not :: "pyval \<Rightarrow> bool" where
  "py_not PNone = True"
| "py_not (PBool b) = (b = False)"
| "py_not (PInt i) = (i = 0)"
| "py_not (PFloat x) = (x = Fin 0)"
| "py_not (PStr s) = (s = [])"
| "py_not (PList xs) = (xs = [])"
| "py_not (PDict kvs) = (kvs = [])"

text \<open>\<^verbatim>\<open>d.get(k, dflt)\<close>: only a \<^verbatim>\<open>dict\<close> has the method.\<close>

fun py_get :: "pyval \<Rightarrow> string \<Rightarrow> pyval \<Rightarrow> pyval result" where
  "py_get (PDict kvs) k dflt = Inr (case map_of kvs k of Some v \<Rightarrow> v | None \<Rightarrow> dflt)"
| "py_get v k dflt = Inl AttributeError"

text \<open>
  \<^verbatim>\<open>table.get(key, dflt)\<close> on one of the engine's literal tables, whose keys are strings:
  a list or dict key is unhashable, any other non-string key is simply absent.
\<close>

fun table_get :: "(string \<times> 'a) list \<Rightarrow> pyval \<Rightarrow> 'a \<Rightarrow> 'a result" where
  "table_get table (PStr s) dflt = Inr (case map_of table s of Some v \<Rightarrow> v | None \<Rightarrow> dflt)"
| "table_get table (PList xs) dflt = Inl TypeError"
| "table_get table (PDict kvs) dflt = Inl TypeError"
| "table_get table v dflt = Inr dflt"

text \<open>\<^verbatim>\<open>k in v\<close> for a string \<open>k\<close>.\<close>

fun py_in :: "string \<Rightarrow> pyval \<Rightarrow> bool result" where
  "py_in k (PDict kvs) = Inr (map_of kvs k \<noteq> None)"
| "py_in k (PList xs) = Inr (PStr k \<in> set xs)"
| "py_in k (PStr s) = Inr (contains k s)"
| "py_in k v = Inl TypeError"

text \<open>\<^verbatim>\<open>v[k]\<close> for a string \<open>k\<close>.\<close>

fun py_getitem :: "pyval \<Rightarrow> string \<Rightarrow> pyval result" where
  "py_getitem (PDict kvs) k = (case map_of kvs k of Some v \<Rightarrow> Inr v | None \<Rightarrow> Inl KeyError)"
| "py_getitem v k = Inl TypeError"

text \<open>The items a \<^verbatim>\<open>for\<close> loop or a comprehension draws from a value.\<close>

fun py_iter :: "pyval \<Rightarrow> pyval list result" where
  "py_iter (PList xs) = Inr xs"
| "py_iter (PStr s) = Inr (map (\<lambda>c. PStr [c]) s)"
| "py_iter (PDict kvs) = Inr (map (\<lambda>kv. PStr (fst kv)) kvs)"
| "py_iter v = Inl TypeError"

text \<open>\<^verbatim>\<open>v[0]\<close>.\<close>

fun py_first :: "pyval \<Rightarrow> pyval result" where
  "py_first (PList (x # xs)) = Inr x"
| "py_first (PList []) = Inl IndexError"
| "py_first (PStr (c # cs)) = Inr (PStr [c])"
| "py_first (PStr []) = Inl IndexError"
| "py_first (PDict kvs) = Inl KeyError"
| "py_first v = Inl TypeError"

text \<open>\<^verbatim>\<open>v.copy()\<close>: lists and dicts have the method, and the copy has the same contents.\<close>

fun py_copy :: "pyval \<Rightarrow> pyval result" where
  "py_copy (PDict kvs) = Inr (PDict kvs)"
| "py_copy (PList xs) = Inr (PList xs)"
| "py_copy v = Inl AttributeError"

section \<open>The record loader\<close>

text \<open>
  What \<^verbatim>\<open>open\<close> followed by \<^verbatim>\<open>json.load\<close> does with a name the runtime accepts (a path
  string or an integer descriptor) is the environment of the program.
\<close>

datatype file_outcome = NotFound | InvalidJson | Loaded pyval | OtherFailure exn

type_synonym env = "pyval \<Rightarrow> file_outcome"

fun load_outcome :: "file_outcome \<Rightarrow> pyval result" where
  "load_outcome NotFound = Inr (PDict [(''error'', PStr ''File not found'')])"
| "load_outcome InvalidJson = Inr (PDict [(''error'', PStr ''Invalid JSON format'')])"
| "load_outcome (Loaded v) = Inr v"
| "load_outcome (OtherFailure e) = Inl e"

text \<open>
  \<^verbatim>\<open>read_input_file\<close> catches \<^verbatim>\<open>FileNotFoundError\<close> and \<^verbatim>\<open>JSONDecodeError\<close> only.
  \<^verbatim>\<open>open\<close> raises \<^verbatim>\<open>TypeError\<close> on an argument that is neither a path nor a descriptor.
\<close>

fun read_input_file :: "env \<Rightarrow> pyval \<Rightarrow> pyval result" where
  "read_input_file env (PStr p) = load_outcome (env (PStr p))"
| "read_input_file env (PInt fd) = load_outcome (env (PInt fd))"
| "read_input_file env (PBool b) = load_outcome (env (PBool b))"
| "read_input_file env v = Inl TypeError"

section \<open>Component 1: confidence score of a source\<close>

definition weight_source_type :: pyfloat where "weight_source_type = to_float (4 / 10)"
definition weight_recency :: pyfloat where "weight_recency = to_float (3 / 10)"
definition weight_authority :: pyfloat where "weight_authority = to_float (3 / 10)"

definition source_types :: "(string \<times> pyfloat) list" where
  "source_types =
     [(''primary'', to_float (9 / 10)), (''secondary'', to_float (6 / 10)),
      (''opinion'', to_float (3 / 10))]"

definition authorities :: "(string \<times> pyfloat) list" where
  "authorities =
     [(''academic'', to_float (9 / 10)), (''government'', to_float (8 / 10)),
      (''news'', to_float (5 / 10)), (''blog'', to_float (2 / 10))]"

text \<open>\<^verbatim>\<open>source_types.get(source_data.get('type', 'opinion'), 0.3)\<close>\<close>

definition type_score :: "pyval \<Rightarrow> pyfloat result" where
  "type_score source_data =
     bind (py_get source_data ''type'' (PStr ''opinion'')) (\<lambda>t.
       table_get source_types t (to_float (3 / 10)))"

text \<open>\<^verbatim>\<open>years_old = 2025 - source_data.get('year', 2025)\<close>\<close>

definition years_old :: "pyval \<Rightarrow> num result" where
  "years_old source_data =
     bind (py_get source_data ''year'' (PInt 2025)) (\<lambda>y.
     bind (as_num y) (\<lambda>year. num_sub (I 2025) year))"

text \<open>\<^verbatim>\<open>recency_score = max(0, 1 - (years_old / 5))\<close>\<close>

definition recency_score :: "pyval \<Rightarrow> num result" where
  "recency_score source_data =
     bind (years_old source_data) (\<lambda>yo.
     bind (num_truediv yo (I 5)) (\<lambda>q.
     bind (num_sub (I 1) q) (\<lambda>r. Inr (py_max (I 0) r))))"

text \<open>\<^verbatim>\<open>authorities.get(source_data.get('authority', 'blog'), 0.2)\<close>\<close>

definition authority_score :: "pyval \<Rightarrow> pyfloat result" where
  "authority_score source_data =
     bind (py_get source_data ''authority'' (PStr ''blog'')) (\<lambda>a.
       table_get authorities a (to_float (2 / 10)))"

text \<open>Lines 34 to 49: the three weighted terms in source order, then the clamp.\<close>

definition weighted_score :: "pyval \<Rightarrow> num result" where
  "weighted_score source_data =
     bind (type_score source_data) (\<lambda>ts.
     bind (num_add (F (Fin 0)) (F (fmul weight_source_type ts))) (\<lambda>score1.
     bind (recency_score source_data) (\<lambda>rs.
     bind (num_mul (F weight_recency) rs) (\<lambda>term2.
     bind (num_add score1 term2) (\<lambda>score2.
     bind (authority_score source_data) (\<lambda>au.
     bind (num_add score2 (F (fmul weight_authority au))) (\<lambda>score3.
       Inr (py_min (py_max score3 (F (Fin 0))) (F (Fin 1))))))))))"

definition confidence_score_source :: "env \<Rightarrow> pyval \<Rightarrow> pyval result" where
  "confidence_score_source env file_path =
     bind (read_input_file env file_path) (\<lambda>data.
     bind (py_in ''error'' data) (\<lambda>failed.
       if failed then py_getitem data ''error''
       else
         bind (py_get data ''confidence_score'' (PDict [])) (\<lambda>section.
         bind (py_get section ''source'' (PDict [])) (\<lambda>source_data.
           if py_not source_data then Inr (PStr ''No source data provided'')
           else bind (weighted_score source_data) (\<lambda>s. Inr (num_val s))))))"

section \<open>Component 2: decision rules for the analysis depth\<close>

definition technical_terms :: "string list" where
  "technical_terms = [''quantum'', ''tariff'', ''algorithm'', ''philosophy'']"

definition domains :: "(string \<times> int) list" where
  "domains = [(''science'', 2), (''economics'', 2), (''history'', 1), (''general'', 0)]"

definition urgency_modifier :: "(string \<times> int) list" where
  "urgency_modifier = [(''high'', - 1), (''normal'', 0), (''low'', 1)]"

text \<open>\<^verbatim>\<open>sum(1 for kw in keywords if kw.lower() in technical_terms)\<close>\<close>

fun count_technical :: "pyval list \<Rightarrow> int result" where
  "count_technical [] = Inr 0"
| "count_technical (kw # kws) =
     bind (py_lower kw) (\<lambda>w.
     bind (count_technical kws) (\<lambda>n.
       Inr ((if w \<in> set technical_terms then 1 else 0) + n)))"

text \<open>Lines 83 to 88.\<close>

definition analysis_mode :: "int \<Rightarrow> string" where
  "analysis_mode complexity_score =
     (if complexity_score \<le> 1 then ''light''
      else if complexity_score \<le> 3 then ''moderate''
      else ''deep'')"

text \<open>Lines 66 to 80: the three signals, added in source order.\<close>

definition complexity_score :: "pyval \<Rightarrow> int result" where
  "complexity_score query_metadata =
     bind (py_get query_metadata ''keywords'' (PList [])) (\<lambda>keywords.
     bind (py_iter keywords) (\<lambda>kws.
     bind (count_technical kws) (\<lambda>k.
     bind (py_get query_metadata ''domain'' (PStr ''general'')) (\<lambda>d.
     bind (table_get domains d 0) (\<lambda>dw.
     bind (py_get query_metadata ''urgency'' (PStr ''normal'')) (\<lambda>urgency.
     bind (table_get urgency_modifier urgency 0) (\<lambda>um.
       Inr (0 + k + dw + um))))))))"

definition decision_rule_engine :: "env \<Rightarrow> pyval \<Rightarrow> pyval result" where
  "decision_rule_engine env file_path =
     bind (read_input_file env file_path) (\<lambda>data.
     bind (py_in ''error'' data) (\<lambda>failed.
       if failed then py_getitem data ''error''
       else
         bind (py_get data ''decision_rule'' (PDict [])) (\<lambda>section.
         bind (py_get section ''query'' (PDict [])) (\<lambda>query_metadata.
           if py_not query_metadata then Inr (PStr ''No query data provided'')
           else bind (complexity_score query_metadata) (\<lambda>c. Inr (PStr (analysis_mode c)))))))"

section \<open>Component 3: consensus evaluation\<close>

text \<open>\<^verbatim>\<open>isinstance(score, float) and score >= 0.7\<close>\<close>

fun is_high_confidence :: "pyval \<Rightarrow> bool" where
  "is_high_confidence (PFloat x) = fle (to_float (7 / 10)) x"
| "is_high_confidence v = False"

text \<open>
  Lines 109 to 114. The scorer is called with a dict where it expects a file name, as the
  source does.
\<close>

fun high_conf_sources :: "env \<Rightarrow> pyval list \<Rightarrow> pyval list result" where
  "high_conf_sources env [] = Inr []"
| "high_conf_sources env (source # sources) =
     bind (py_copy source) (\<lambda>temp_source.
     bind (confidence_score_source env
             (PDict [(''confidence_score'', PDict [(''source'', temp_source)])])) (\<lambda>score.
     bind (high_conf_sources env sources) (\<lambda>rest.
       Inr (if is_high_confidence score then source # rest else rest))))"

text \<open>Lines 120 to 127: the pair is \<open>(support_count, oppose_count)\<close>.\<close>

fun count_votes :: "pyval \<Rightarrow> pyval list \<Rightarrow> int \<times> int \<Rightarrow> (int \<times> int) result" where
  "count_votes claim [] counts = Inr counts"
| "count_votes claim (source # sources) (support_count, oppose_count) =
     bind (py_get source ''content'' (PStr [])) (\<lambda>c.
     bind (py_lower c) (\<lambda>content.
     bind (py_lower claim) (\<lambda>claim_lower.
       if contains claim_lower content
       then count_votes claim sources (support_count + 1, oppose_count)
       else if contains (''not '' @ claim_lower) content
       then count_votes claim sources (support_count, oppose_count + 1)
       else count_votes claim sources (support_count, oppose_count))))"

text \<open>Lines 129 to 138.\<close>

definition verdict :: "int \<Rightarrow> int \<Rightarrow> pyval result" where
  "verdict support_count oppose_count =
     (let total = support_count + oppose_count
      in if total = 0 then Inr (PStr ''no_consensus'')
         else
           bind (num_truediv (I support_count) (I total)) (\<lambda>support_ratio.
             if num_le (F (to_float (8 / 10))) support_ratio then Inr (PStr ''supported'')
             else if num_le support_ratio (F (to_float (2 / 10))) then Inr (PStr ''disputed'')
             else Inr (PStr ''no_consensus'')))"

definition evaluate_consensus :: "env \<Rightarrow> pyval \<Rightarrow> pyval result" where
  "evaluate_consensus env file_path =
     bind (read_input_file env file_path) (\<lambda>data.
     bind (py_in ''error'' data) (\<lambda>failed.
       if failed then py_getitem data ''error''
       else
         bind (py_get data ''consensus_eval'' (PDict [])) (\<lambda>consensus_data.
         bind (py_get consensus_data ''claim'' (PStr [])) (\<lambda>claim.
         bind (py_get consensus_data ''sources'' (PList [])) (\<lambda>sources.
           if py_not claim \<or> py_not sources then Inr (PStr ''No claim or sources provided'')
           else
             bind (py_iter sources) (\<lambda>items.
             bind (high_conf_sources env items) (\<lambda>high.
               if high = [] then Inr (PStr ''no_consensus'')
               else
                 bind (count_votes claim high (0, 0)) (\<lambda>counts.
                   verdict (fst counts) (snd counts)))))))))"

section \<open>Component 4: hybrid reasoning\<close>

definition first_principles :: "(string \<times> string) list" where
  "first_principles =
     [(''economics'', ''Supply and demand govern prices.''),
      (''physics'', ''Energy is conserved.'')]"

text \<open>\<^verbatim>\<open>data_points[0].get('domain', 'general') if data_points else 'general'\<close>\<close>

definition first_domain :: "pyval \<Rightarrow> pyval result" where
  "first_domain data_points =
     (if py_not data_points then Inr (PStr ''general'')
      else bind (py_first data_points) (\<lambda>d. py_get d ''domain'' (PStr ''general'')))"

text \<open>\<^verbatim>\<open>[d.get('observation', '') for d in data_points]\<close>\<close>

fun observations :: "pyval list \<Rightarrow> pyval list result" where
  "observations [] = Inr []"
| "observations (d # ds) =
     bind (py_get d ''observation'' (PStr [])) (\<lambda>obs.
     bind (observations ds) (\<lambda>rest. Inr (obs # rest)))"

text \<open>\<^verbatim>\<open>sum(1 for obs in observations if 'increase' in obs.lower())\<close>\<close>

fun positive_outcomes :: "pyval list \<Rightarrow> int result" where
  "positive_outcomes [] = Inr 0"
| "positive_outcomes (obs # rest) =
     bind (py_lower obs) (\<lambda>text.
     bind (positive_outcomes rest) (\<lambda>n.
       Inr ((if contains ''increase'' text then 1 else 0) + n)))"

text \<open>Lines 172 to 174, for a non-empty list of observations.\<close>

definition trend :: "pyval list \<Rightarrow> string result" where
  "trend obs =
     bind (positive_outcomes obs) (\<lambda>positive.
     bind (num_truediv (I positive) (I (int (length obs)))) (\<lambda>fraction.
       Inr (if num_lt (F (to_float (5 / 10))) fraction
            then ''likely increases'' else ''may not increase'')))"

text \<open>
  An f-string inserts a string as it is. What \<^verbatim>\<open>str\<close> makes of any other value is left to
  the parameter \<open>py_str\<close>.
\<close>

fun format_value :: "(pyval \<Rightarrow> string) \<Rightarrow> pyval \<Rightarrow> string" where
  "format_value py_str (PStr s) = s"
| "format_value py_str v = py_str v"

definition inconclusive :: "(pyval \<Rightarrow> string) \<Rightarrow> string \<Rightarrow> pyval \<Rightarrow> pyval" where
  "inconclusive py_str base_principle problem =
     PStr (base_principle @ '' Data analysis inconclusive for '' @ format_value py_str problem @ ''.'')"

definition hybrid_reasoning_engine :: "(pyval \<Rightarrow> string) \<Rightarrow> env \<Rightarrow> pyval \<Rightarrow> pyval result" where
  "hybrid_reasoning_engine py_str env file_path =
     bind (read_input_file env file_path) (\<lambda>data.
     bind (py_in ''error'' data) (\<lambda>failed.
       if failed then py_getitem data ''error''
       else
         bind (py_get data ''hybrid_reasoning'' (PDict [])) (\<lambda>reasoning_data.
         bind (py_get reasoning_data ''problem'' (PStr [])) (\<lambda>problem.
         bind (py_get reasoning_data ''data'' (PList [])) (\<lambda>data_points.
           if py_not problem then Inr (PStr ''No problem provided'')
           else
             bind (first_domain data_points) (\<lambda>domain.
             bind (table_get first_principles domain ''General reasoning applies.'')
               (\<lambda>base_principle.
             bind (py_iter data_points) (\<lambda>items.
             bind (observations items) (\<lambda>obs.
               if obs = []
               then Inr (PStr (''Based on '' @ base_principle @ '', insufficient data to conclude.''))
               else
                 bind (trend obs) (\<lambda>trend_phrase.
                   if domain = PStr ''economics''
                   then
                     bind (py_lower problem) (\<lambda>problem_lower.
                       if contains ''price'' problem_lower
                       then Inr (PStr (base_principle @ '' Data suggests '' @ problem_lower
                                        @ '' '' @ trend_phrase @ ''.''))
                       else Inr (inconclusive py_str base_principle problem))
                   else Inr (inconclusive py_str base_principle problem)))))))))))"

section \<open>The specification's reading of the rules\<close>

text \<open>
  Section 4.2 of the specification: one point per keyword that is a technical term once
  lowercased, the weight of the domain, the modifier of the urgency; an absent domain is
  \<open>general\<close> and an absent urgency is \<open>normal\<close>.
\<close>

definition spec_keyword_points :: "string list \<Rightarrow> int" where
  "spec_keyword_points keywords =
     int (length (filter (\<lambda>kw. lower kw \<in> {''quantum'', ''tariff'', ''algorithm'', ''philosophy''})
       keywords))"

definition spec_domain_weight :: "string \<Rightarrow> int" where
  "spec_domain_weight d =
     (if d = ''science'' then 2 else if d = ''economics'' then 2
      else if d = ''history'' then 1 else 0)"

definition spec_urgency_modifier :: "string \<Rightarrow> int" where
  "spec_urgency_modifier u = (if u = ''high'' then - 1 else if u = ''low'' then 1 else 0)"

definition spec_complexity :: "string list \<Rightarrow> string option \<Rightarrow> string option \<Rightarrow> int" where
  "spec_complexity keywords d u =
     spec_keyword_points keywords
       + spec_domain_weight (case d of None \<Rightarrow> ''general'' | Some x \<Rightarrow> x)
       + spec_urgency_modifier (case u of None \<Rightarrow> ''normal'' | Some x \<Rightarrow> x)"

text \<open>
  Section 4.4, step 3: the number of observation texts that contain \<open>increase\<close> once
  lowercased.
\<close>

definition spec_increases :: "string list \<Rightarrow> nat" where
  "spec_increases texts = length (filter (\<lambda>t. contains ''increase'' (lower t)) texts)"

definition spec_trend :: "string list \<Rightarrow> string" where
  "spec_trend texts =
     (if length texts < 2 * spec_increases texts then ''likely increases''
      else ''may not increase'')"

text \<open>A data point whose observation is the text \<open>t\<close> (the empty text when it has none).\<close>

fun has_observation :: "pyval \<Rightarrow> string \<Rightarrow> bool" where
  "has_observation (PDict kvs) t =
     (case map_of kvs ''observation'' of None \<Rightarrow> t = [] | Some v \<Rightarrow> v = PStr t)"
| "has_observation v t = False"

section \<open>Auxiliary notions\<close>

text \<open>A float that is zero, positive or \<open>+\<infinity>\<close>: what every term of the score is.\<close>

fun nonneg_float :: "pyfloat \<Rightarrow> bool" where
  "nonneg_float (Fin a) = (0 \<le> a)"
| "nonneg_float PosInf = True"
| "nonneg_float x = False"

section \<open>Facts about rounding\<close>

lemma bind_simps:
  "bind (Inl e) f = Inl e"
  "bind (Inr v) f = f v"
  by (simp_all add: bind_def)

lemma bind_eq_Inr: "bind m f = Inr v \<longleftrightarrow> (\<exists>a. m = Inr a \<and> f a = Inr v)"
  by (cases m) (simp_all add: bind_simps)

lemma pow2_powi: "pow2 k = 2 powi k"
  by (simp add: pow2_def power_int_def power_inverse inverse_eq_divide flip: power_one_over)

lemma pow2_pos: "0 < pow2 k"
  by (simp add: pow2_powi)

lemma pow2_add: "pow2 (a + b) = pow2 a * pow2 b"
  by (simp add: pow2_powi power_int_add)

lemma pow2_mono: "a \<le> b \<Longrightarrow> pow2 a \<le> pow2 b"
  by (simp add: pow2_powi power_int_increasing)

lemma pow2_strict_mono: "a < b \<Longrightarrow> pow2 a < pow2 b"
  by (simp add: pow2_powi power_int_strict_increasing)

lemma pow2_less_cancel: "pow2 a < pow2 b \<Longrightarrow> a < b"
  using pow2_mono [of b a] by (cases "a < b") auto

lemma pow2_le_cancel: "pow2 a \<le> pow2 b \<Longrightarrow> a \<le> b"
  using pow2_strict_mono [of b a] by (cases "a \<le> b") auto

lemma pow2_of_nat: "0 \<le> k \<Longrightarrow> pow2 k = of_int (2 ^ nat k)"
  by (simp add: pow2_def)

text \<open>\<^const>\<open>ilog2\<close> is the binary exponent: \<open>2\<^sup>e \<le> q < 2\<^sup>e\<^sup>+\<^sup>1\<close>.\<close>

lemma bitlen_pow2_bounds:
  assumes "0 < a"
  shows "pow2 (bitlen a - 1) \<le> of_int a" "of_int a < pow2 (bitlen a)"
proof -
  have la: "1 \<le> bitlen a" using assms by (auto simp: bitlen_alt_def)
  have "2 ^ nat (bitlen a - 1) \<le> a" "a < 2 ^ nat (bitlen a)"
    using bitlen_bounds [OF assms] by auto
  then have "(of_int (2 ^ nat (bitlen a - 1)) :: rat) \<le> of_int a"
    "(of_int a :: rat) < of_int (2 ^ nat (bitlen a))"
    by (simp_all only: of_int_le_iff of_int_less_iff)
  then show "pow2 (bitlen a - 1) \<le> of_int a" "of_int a < pow2 (bitlen a)"
    using la by (simp_all only: pow2_of_nat [symmetric])
qed

lemma ilog2_bounds:
  assumes "0 < q"
  shows "pow2 (ilog2 q) \<le> q \<and> q < pow2 (ilog2 q + 1)"
proof -
  obtain a b where ab: "quotient_of q = (a, b)" by (cases "quotient_of q")
  have b: "0 < b" using ab by (rule quotient_of_denom_pos)
  have q: "q = of_int a / of_int b" using ab by (rule quotient_of_div)
  have a: "0 < a" using assms b unfolding q by (simp add: zero_less_divide_iff)
  define k where "k = bitlen a - bitlen b"
  note ba = bitlen_pow2_bounds [OF a]
  note bb = bitlen_pow2_bounds [OF b]
  have bpos: "(0::rat) < of_int b" using b by simp
  have "q * of_int b < pow2 (k + 1) * of_int b"
  proof -
    have "q * of_int b = of_int a" using bpos by (simp add: q)
    also have "\<dots> < pow2 (bitlen a)" by (rule ba)
    also have "\<dots> = pow2 (k + 1) * pow2 (bitlen b - 1)"
      by (simp add: k_def flip: pow2_add)
    also have "\<dots> \<le> pow2 (k + 1) * of_int b"
      using bb(1) pow2_pos [of "k + 1"] by (simp add: mult_left_mono)
    finally show ?thesis .
  qed
  then have up: "q < pow2 (k + 1)" using bpos by simp
  have "pow2 (k - 1) * of_int b < q * of_int b"
  proof -
    have "pow2 (k - 1) * of_int b < pow2 (k - 1) * pow2 (bitlen b)"
      using bb(2) pow2_pos [of "k - 1"] by (simp add: mult_strict_left_mono)
    also have "\<dots> = pow2 (bitlen a - 1)"
      by (simp add: k_def flip: pow2_add)
    also have "\<dots> \<le> of_int a" by (rule ba)
    also have "\<dots> = q * of_int b" using bpos by (simp add: q)
    finally show ?thesis .
  qed
  then have lo: "pow2 (k - 1) < q" using bpos by simp
  show ?thesis
    using up lo by (simp add: ilog2_def ab k_def [symmetric] Let_def not_le)
qed

lemma ilog2_unique:
  assumes "0 < q" "pow2 e \<le> q" "q < pow2 (e + 1)"
  shows "ilog2 q = e"
proof -
  have "pow2 (ilog2 q) < pow2 (e + 1)" "pow2 e < pow2 (ilog2 q + 1)"
    using ilog2_bounds [OF assms(1)] assms(2,3) by auto
  then have "ilog2 q < e + 1" "e < ilog2 q + 1"
    by (auto dest: pow2_less_cancel)
  then show ?thesis by simp
qed

text \<open>\<^const>\<open>round_half_even\<close> moves to a neighbouring integer and never crosses one.\<close>

lemma rhe_cases: "round_half_even x = \<lfloor>x\<rfloor> \<or> round_half_even x = \<lfloor>x\<rfloor> + 1"
  by (simp add: round_half_even_def Let_def)

lemma rhe_of_int: "x = of_int n \<Longrightarrow> round_half_even x = n"
  by (simp add: round_half_even_def)

lemma rhe_ge:
  assumes "of_int n \<le> x" shows "n \<le> round_half_even x"
proof -
  have "n \<le> \<lfloor>x\<rfloor>" using assms by (simp add: le_floor_iff)
  then show ?thesis using rhe_cases [of x] by auto
qed

lemma rhe_le:
  assumes "x \<le> of_int n" shows "round_half_even x \<le> n"
proof (cases "x = of_int n")
  case True
  then show ?thesis by (simp add: rhe_of_int)
next
  case False
  then have "x < of_int n" using assms by simp
  then have "\<lfloor>x\<rfloor> < n" by (simp add: floor_less_iff)
  then show ?thesis using rhe_cases [of x] by auto
qed

lemma rhe_gt:
  assumes "of_int n + 1 / 2 < x" shows "n < round_half_even x"
proof -
  have n: "n \<le> \<lfloor>x\<rfloor>" using assms by (simp add: le_floor_iff)
  show ?thesis
  proof (cases "n = \<lfloor>x\<rfloor>")
    case True
    then have "1 / 2 < x - of_int \<lfloor>x\<rfloor>" using assms by simp
    then have "round_half_even x = \<lfloor>x\<rfloor> + 1"
      by (simp add: round_half_even_def Let_def)
    then show ?thesis using True by simp
  next
    case False
    then show ?thesis using n rhe_cases [of x] by auto
  qed
qed

text \<open>Rounding keeps the sign and never crosses a power of two.\<close>

lemma rb_unfold:
  assumes "q \<noteq> 0"
  shows "round_binary64 q =
    of_int (round_half_even (q / pow2 (max (ilog2 \<bar>q\<bar>) (- 1022) - 52)))
      * pow2 (max (ilog2 \<bar>q\<bar>) (- 1022) - 52)"
  using assms by (simp add: round_binary64_def Let_def)

lemma rb_zero: "round_binary64 0 = 0"
  by (simp add: round_binary64_def)

lemma rb_nonneg:
  assumes "0 \<le> q" shows "0 \<le> round_binary64 q"
proof (cases "q = 0")
  case True
  then show ?thesis by (simp add: rb_zero)
next
  case False
  define u where "u = pow2 (max (ilog2 \<bar>q\<bar>) (- 1022) - 52)"
  have u: "0 < u" by (simp add: u_def pow2_pos)
  have "of_int 0 \<le> q / u" using assms u by simp
  then have "0 \<le> round_half_even (q / u)" by (rule rhe_ge)
  then show ?thesis using u by (simp add: rb_unfold [OF False] u_def [symmetric])
qed

lemma rb_nonpos:
  assumes "q \<le> 0" shows "round_binary64 q \<le> 0"
proof (cases "q = 0")
  case True
  then show ?thesis by (simp add: rb_zero)
next
  case False
  define u where "u = pow2 (max (ilog2 \<bar>q\<bar>) (- 1022) - 52)"
  have u: "0 < u" by (simp add: u_def pow2_pos)
  have "q / u \<le> of_int 0" using assms u by (simp add: divide_nonpos_pos)
  then have "round_half_even (q / u) \<le> 0" by (rule rhe_le)
  then show ?thesis using u
    by (simp add: rb_unfold [OF False] u_def [symmetric] mult_nonpos_nonneg)
qed

lemma rb_le_pow2:
  assumes "0 < q" "q \<le> pow2 k" "- 1074 \<le> k"
  shows "round_binary64 q \<le> pow2 k"
proof -
  define E where "E = max (ilog2 \<bar>q\<bar>) (- 1022)"
  define u where "u = pow2 (E - 52)"
  have u: "0 < u" by (simp add: u_def pow2_pos)
  have "pow2 (ilog2 q) \<le> pow2 k"
    using ilog2_bounds [OF assms(1)] assms(2) by simp
  then have "ilog2 q \<le> k" by (rule pow2_le_cancel)
  then have j: "0 \<le> k - (E - 52)" using assms(1,3) by (simp add: E_def)
  have "pow2 k = pow2 (k - (E - 52)) * u"
    by (simp add: u_def flip: pow2_add)
  then have k: "pow2 k = of_int (2 ^ nat (k - (E - 52))) * u"
    using j by (simp only: pow2_of_nat)
  then have "q / u \<le> of_int (2 ^ nat (k - (E - 52)))"
    using assms(2) u by (simp add: pos_divide_le_eq)
  then have "round_half_even (q / u) \<le> 2 ^ nat (k - (E - 52))" by (rule rhe_le)
  then have "(of_int (round_half_even (q / u)) :: rat) \<le> of_int (2 ^ nat (k - (E - 52)))"
    by (simp only: of_int_le_iff)
  then have "of_int (round_half_even (q / u)) * u \<le> of_int (2 ^ nat (k - (E - 52))) * u"
    using u by (simp only: mult_le_cancel_right_pos)
  moreover have "round_binary64 q = of_int (round_half_even (q / u)) * u"
    using assms(1) by (simp add: rb_unfold u_def E_def)
  ultimately show ?thesis by (simp only: k)
qed

lemma rb_ge_pow2:
  assumes "pow2 k \<le> q" "- 1074 \<le> k"
  shows "pow2 k \<le> round_binary64 q"
proof -
  have q: "0 < q" using assms(1) pow2_pos [of k] by simp
  define e where "e = ilog2 q"
  define E where "E = max (ilog2 \<bar>q\<bar>) (- 1022)"
  define u where "u = pow2 (E - 52)"
  have u: "0 < u" by (simp add: u_def pow2_pos)
  have "pow2 k < pow2 (e + 1)"
    using ilog2_bounds [OF q] assms(1) by (simp add: e_def)
  then have ke: "k \<le> e" using pow2_less_cancel [of k "e + 1"] by simp
  then have j: "0 \<le> e - (E - 52)" using q assms(2) by (simp add: E_def e_def)
  have "pow2 e = pow2 (e - (E - 52)) * u"
    by (simp add: u_def flip: pow2_add)
  then have k: "pow2 e = of_int (2 ^ nat (e - (E - 52))) * u"
    using j by (simp only: pow2_of_nat)
  have "pow2 e \<le> q" using ilog2_bounds [OF q] by (simp add: e_def)
  then have "of_int (2 ^ nat (e - (E - 52))) \<le> q / u"
    using u by (simp add: k pos_le_divide_eq)
  then have "2 ^ nat (e - (E - 52)) \<le> round_half_even (q / u)" by (rule rhe_ge)
  then have "(of_int (2 ^ nat (e - (E - 52))) :: rat) \<le> of_int (round_half_even (q / u))"
    by (simp only: of_int_le_iff)
  then have "of_int (2 ^ nat (e - (E - 52))) * u \<le> of_int (round_half_even (q / u)) * u"
    using u by (simp only: mult_le_cancel_right_pos)
  moreover have "round_binary64 q = of_int (round_half_even (q / u)) * u"
    using q by (simp add: rb_unfold u_def E_def)
  ultimately have "pow2 e \<le> round_binary64 q" by (simp only: k)
  then show ?thesis using pow2_mono [OF ke] by simp
qed

lemma rb_binade:
  assumes "pow2 e \<le> \<bar>q\<bar>" "\<bar>q\<bar> < pow2 (e + 1)" "- 1022 \<le> e"
  shows "round_binary64 q = of_int (round_half_even (q / pow2 (e - 52))) * pow2 (e - 52)"
proof -
  have q: "0 < \<bar>q\<bar>" using assms(1) pow2_pos [of e] by simp
  have "ilog2 \<bar>q\<bar> = e" using q assms(1,2) by (rule ilog2_unique)
  moreover have "q \<noteq> 0" using q by simp
  ultimately show ?thesis using assms(3) by (simp add: rb_unfold max_def)
qed

text \<open>Just above one half the spacing is \<open>2\<^sup>-\<^sup>5\<^sup>3\<close>: more than half of it is not rounded away.\<close>

lemma rb_gt_half:
  assumes "1 / 2 + 1 / 2 ^ 54 < q" "q < 1"
  shows "1 / 2 < round_binary64 q"
proof -
  have "pow2 (- 1) \<le> \<bar>q\<bar>" "\<bar>q\<bar> < pow2 (- 1 + 1)"
    using assms by (simp_all add: pow2_def)
  then have rb: "round_binary64 q = of_int (round_half_even (q / pow2 (- 1 - 52))) * pow2 (- 1 - 52)"
    by (rule rb_binade) simp
  have "of_int (2 ^ 52) + 1 / 2 < q / pow2 (- 1 - 52)"
    using assms(1) by (simp add: pow2_def)
  then have "2 ^ 52 < round_half_even (q / pow2 (- 1 - 52))" by (rule rhe_gt)
  then have "2 ^ 52 + 1 \<le> round_half_even (q / pow2 (- 1 - 52))" by simp
  then have "(of_int (2 ^ 52 + 1) :: rat) \<le> of_int (round_half_even (q / pow2 (- 1 - 52)))"
    by (simp only: of_int_le_iff)
  then show ?thesis unfolding rb by (simp add: pow2_def)
qed

section \<open>Evaluation rules\<close>

text \<open>Rounding a numeral: one rule per binade between \<open>2\<^sup>-\<^sup>5\<close> and \<open>32\<close>.\<close>

lemma rb_eval:
  "1 / 32 \<le> \<bar>q\<bar> \<Longrightarrow> \<bar>q\<bar> < 1 / 16 \<Longrightarrow>
     round_binary64 q = of_int (round_half_even (q * 2 ^ 57)) / 2 ^ 57"
  "1 / 16 \<le> \<bar>q\<bar> \<Longrightarrow> \<bar>q\<bar> < 1 / 8 \<Longrightarrow>
     round_binary64 q = of_int (round_half_even (q * 2 ^ 56)) / 2 ^ 56"
  "1 / 8 \<le> \<bar>q\<bar> \<Longrightarrow> \<bar>q\<bar> < 1 / 4 \<Longrightarrow>
     round_binary64 q = of_int (round_half_even (q * 2 ^ 55)) / 2 ^ 55"
  "1 / 4 \<le> \<bar>q\<bar> \<Longrightarrow> \<bar>q\<bar> < 1 / 2 \<Longrightarrow>
     round_binary64 q = of_int (round_half_even (q * 2 ^ 54)) / 2 ^ 54"
  "1 / 2 \<le> \<bar>q\<bar> \<Longrightarrow> \<bar>q\<bar> < 1 \<Longrightarrow>
     round_binary64 q = of_int (round_half_even (q * 2 ^ 53)) / 2 ^ 53"
  "1 \<le> \<bar>q\<bar> \<Longrightarrow> \<bar>q\<bar> < 2 \<Longrightarrow>
     round_binary64 q = of_int (round_half_even (q * 2 ^ 52)) / 2 ^ 52"
  "2 \<le> \<bar>q\<bar> \<Longrightarrow> \<bar>q\<bar> < 4 \<Longrightarrow>
     round_binary64 q = of_int (round_half_even (q * 2 ^ 51)) / 2 ^ 51"
  "4 \<le> \<bar>q\<bar> \<Longrightarrow> \<bar>q\<bar> < 8 \<Longrightarrow>
     round_binary64 q = of_int (round_half_even (q * 2 ^ 50)) / 2 ^ 50"
  "8 \<le> \<bar>q\<bar> \<Longrightarrow> \<bar>q\<bar> < 16 \<Longrightarrow>
     round_binary64 q = of_int (round_half_even (q * 2 ^ 49)) / 2 ^ 49"
  "16 \<le> \<bar>q\<bar> \<Longrightarrow> \<bar>q\<bar> < 32 \<Longrightarrow>
     round_binary64 q = of_int (round_half_even (q * 2 ^ 48)) / 2 ^ 48"
  using rb_binade [of "- 5" q] rb_binade [of "- 4" q] rb_binade [of "- 3" q]
    rb_binade [of "- 2" q] rb_binade [of "- 1" q] rb_binade [of 0 q] rb_binade [of 1 q]
    rb_binade [of 2 q] rb_binade [of 3 q] rb_binade [of 4 q]
  by (simp_all add: pow2_def)

lemma floor_rat_numeral:
  "\<lfloor>numeral a / numeral b :: rat\<rfloor> = numeral a div numeral b"
  "\<lfloor>- (numeral a / numeral b) :: rat\<rfloor> = - numeral a div numeral b"
  using floor_divide_of_int_eq [of "numeral a" "numeral b", where ?'a = rat]
    floor_divide_of_int_eq [of "- numeral a" "numeral b", where ?'a = rat]
  by simp_all

lemmas float_eval = to_float_def overflow_threshold_def rb_zero rb_eval round_half_even_def
  Let_def floor_rat_numeral

lemmas scorer_defs = weighted_score_def type_score_def recency_score_def years_old_def
  authority_score_def bind_simps int_to_float_def fsub_def py_max_def py_min_def num_lt_def
  source_types_def authorities_def weight_source_type_def weight_recency_def
  weight_authority_def

text \<open>Lowercasing a literal.\<close>

lemmas string_eval = lower_def lower_char_def char_of_def bit_Suc_0_iff

section \<open>The confidence score\<close>

lemma weights_eval:
  "weight_source_type = Fin (3602879701896397 / 9007199254740992)"
  "weight_recency = Fin (5404319552844595 / 18014398509481984)"
  "weight_authority = Fin (5404319552844595 / 18014398509481984)"
  by (simp_all add: weight_source_type_def weight_recency_def weight_authority_def float_eval)

subsection \<open>The score stays in the unit interval\<close>

lemma overflow_threshold_pos: "0 < overflow_threshold"
  by (simp add: overflow_threshold_def)

lemma to_float_nonneg: "0 \<le> q \<Longrightarrow> nonneg_float (to_float q)"
  using rb_nonneg [of q] overflow_threshold_pos by (simp add: to_float_def Let_def)

lemma fadd_nonneg: "nonneg_float a \<Longrightarrow> nonneg_float b \<Longrightarrow> nonneg_float (fadd a b)"
  by (cases a; cases b) (simp_all add: to_float_nonneg)

lemma fmul_nonneg: "0 < w \<Longrightarrow> nonneg_float b \<Longrightarrow> nonneg_float (fmul (Fin w) b)"
  by (cases b) (simp_all add: to_float_nonneg signed_inf_def)

lemma flt_zero_nonneg: "flt (Fin 0) x \<Longrightarrow> nonneg_float x"
  by (cases x) simp_all

lemma int_to_float_nonneg: "0 \<le> i \<Longrightarrow> int_to_float i = Inr x \<Longrightarrow> nonneg_float x"
  using rb_nonneg [of "of_int i"] by (auto simp: int_to_float_def Let_def split: if_splits)

lemma table_get_cases:
  "table_get t k d = Inr v \<Longrightarrow> v = d \<or> v \<in> snd ` set t"
  by (cases k) (auto split: option.splits dest: map_of_SomeD intro: rev_image_eqI)

lemma type_score_nonneg: "type_score sd = Inr ts \<Longrightarrow> nonneg_float ts"
  by (cases sd)
    (auto simp: type_score_def bind_simps source_types_def to_float_nonneg dest!: table_get_cases)

lemma authority_score_nonneg: "authority_score sd = Inr au \<Longrightarrow> nonneg_float au"
  by (cases sd)
    (auto simp: authority_score_def bind_simps authorities_def to_float_nonneg dest!: table_get_cases)

text \<open>The recency term is the integer \<open>0\<close> or a float the comparison found positive.\<close>

lemma recency_score_cases:
  assumes "recency_score sd = Inr rs"
  shows "(\<exists>i. rs = I i \<and> 0 \<le> i) \<or> (\<exists>x. rs = F x \<and> nonneg_float x)"
proof -
  obtain r where "rs = py_max (I 0) r"
    using assms by (auto simp: recency_score_def bind_eq_Inr)
  then show ?thesis
    by (cases r) (auto simp: py_max_def num_lt_def dest: flt_zero_nonneg)
qed

lemma recency_term_nonneg:
  assumes "recency_score sd = Inr rs" "num_mul (F weight_recency) rs = Inr t"
  shows "\<exists>x. t = F x \<and> nonneg_float x"
proof -
  obtain a where a: "num_to_float rs = Inr a" and t: "t = F (fmul weight_recency a)"
    using assms(2) by (cases rs) (auto simp: bind_eq_Inr)
  have "nonneg_float a"
    using recency_score_cases [OF assms(1)] a by (auto dest: int_to_float_nonneg)
  then show ?thesis by (simp add: t weights_eval fmul_nonneg)
qed

lemma clamp_unit:
  assumes "nonneg_float s"
  shows "\<exists>r. py_min (py_max (F s) (F (Fin 0))) (F (Fin 1)) = F (Fin r) \<and> 0 \<le> r \<and> r \<le> 1"
  using assms by (cases s) (auto simp: py_min_def py_max_def num_lt_def)

lemma weighted_score_unit:
  assumes "weighted_score sd = Inr s"
  shows "\<exists>r. s = F (Fin r) \<and> 0 \<le> r \<and> r \<le> 1"
proof -
  obtain ts score1 rs term2 score2 au score3 where
    ts: "type_score sd = Inr ts"
    and s1: "num_add (F (Fin 0)) (F (fmul weight_source_type ts)) = Inr score1"
    and rs: "recency_score sd = Inr rs"
    and t2: "num_mul (F weight_recency) rs = Inr term2"
    and s2: "num_add score1 term2 = Inr score2"
    and au: "authority_score sd = Inr au"
    and s3: "num_add score2 (F (fmul weight_authority au)) = Inr score3"
    and s: "s = py_min (py_max score3 (F (Fin 0))) (F (Fin 1))"
    using assms unfolding weighted_score_def bind_eq_Inr by auto
  have n1: "nonneg_float (fmul weight_source_type ts)"
    using type_score_nonneg [OF ts] by (simp add: weights_eval fmul_nonneg)
  have score1: "score1 = F (fadd (Fin 0) (fmul weight_source_type ts))"
    using s1 by (simp add: bind_simps)
  obtain x2 where term2: "term2 = F x2" and n2: "nonneg_float x2"
    using recency_term_nonneg [OF rs t2] by auto
  have score2: "score2 = F (fadd (fadd (Fin 0) (fmul weight_source_type ts)) x2)"
    using s2 by (simp add: score1 term2 bind_simps)
  have n3: "nonneg_float (fmul weight_authority au)"
    using authority_score_nonneg [OF au] by (simp add: weights_eval fmul_nonneg)
  have score3: "score3 = F (fadd (fadd (fadd (Fin 0) (fmul weight_source_type ts)) x2)
      (fmul weight_authority au))"
    using s3 by (simp add: score2 bind_simps)
  have "nonneg_float (fadd (fadd (fadd (Fin 0) (fmul weight_source_type ts)) x2)
      (fmul weight_authority au))"
    using n1 n2 n3 by (simp add: fadd_nonneg)
  then show ?thesis unfolding s score3 by (rule clamp_unit)
qed

text \<open>
  C7. Whatever the source descriptor holds (a future year, an unknown type or authority, or
  values of the wrong shape), a record without an \<open>error\<close> entry gets from
  \<^const>\<open>confidence_score_source\<close> either a condition string or a float between 0 and 1
  inclusive; the remaining outcome is an exception.
\<close>

theorem confidence_score_in_unit_interval:
  assumes "read_input_file env file_path = Inr data"
    and "py_in ''error'' data = Inr False"
    and "confidence_score_source env file_path = Inr v"
  shows "(\<exists>msg. v = PStr msg) \<or> (\<exists>r. v = PFloat (Fin r) \<and> 0 \<le> r \<and> r \<le> 1)"
proof -
  have "v = PStr ''No source data provided'' \<or> (\<exists>sd s. weighted_score sd = Inr s \<and> v = num_val s)"
    using assms by (auto simp: confidence_score_source_def bind_eq_Inr split: if_splits)
  then show ?thesis using weighted_score_unit by fastforce
qed

theorem confidence_score_in_unit_interval_witness:
  "\<exists>r. confidence_score_source
     (\<lambda>name. Loaded (PDict [(''confidence_score'', PDict [(''source'', PDict
        [(''type'', PStr ''rumour''), (''year'', PInt 2035), (''authority'', PStr ''tabloid'')])])]))
     (PStr ''input.json'') = Inr (PFloat (Fin r)) \<and> 0 \<le> r \<and> r \<le> 1"
proof -
  let ?env = "(\<lambda>name. Loaded (PDict [(''confidence_score'', PDict [(''source'', PDict
        [(''type'', PStr ''rumour''), (''year'', PInt 2035), (''authority'', PStr ''tabloid'')])])]))"
  have result: "confidence_score_source ?env (PStr ''input.json'') = Inr (PFloat (Fin 1))"
    by (simp add: confidence_score_source_def scorer_defs float_eval)
  have loaded: "read_input_file ?env (PStr ''input.json'')
      = Inr (PDict [(''confidence_score'', PDict [(''source'', PDict
        [(''type'', PStr ''rumour''), (''year'', PInt 2035), (''authority'', PStr ''tabloid'')])])])"
    by simp
  have no_error: "py_in ''error'' (PDict [(''confidence_score'', PDict [(''source'', PDict
        [(''type'', PStr ''rumour''), (''year'', PInt 2035), (''authority'', PStr ''tabloid'')])])]) = Inr False"
    by simp
  show ?thesis
    using confidence_score_in_unit_interval [OF loaded no_error result] result by simp
qed

subsection \<open>The recency component\<close>

lemma rhe_minus: "round_half_even (- x) = - round_half_even x"
proof (cases "x = of_int \<lfloor>x\<rfloor>")
  case True
  then have "- x = of_int (- \<lfloor>x\<rfloor>)" by simp
  then have "round_half_even (- x) = - \<lfloor>x\<rfloor>" by (rule rhe_of_int)
  moreover have "round_half_even x = \<lfloor>x\<rfloor>" using True by (rule rhe_of_int)
  ultimately show ?thesis by simp
next
  case False
  then have d: "of_int \<lfloor>x\<rfloor> < x"
    using of_int_floor_le [of x] by (metis order_less_le)
  have "x < of_int \<lfloor>x\<rfloor> + 1" by linarith
  then have "\<lceil>x\<rceil> = \<lfloor>x\<rfloor> + 1" using d by (intro ceiling_unique) simp_all
  moreover have "\<lfloor>- x\<rfloor> = - \<lceil>x\<rceil>" by (simp add: ceiling_def)
  ultimately have f: "\<lfloor>- x\<rfloor> = - \<lfloor>x\<rfloor> - 1" by simp
  show ?thesis
    using d by (auto simp: round_half_even_def Let_def f)
qed

lemma rb_minus: "round_binary64 (- q) = - round_binary64 q"
  by (simp add: round_binary64_def Let_def rhe_minus)

lemma rb_abs_le:
  assumes "\<bar>q\<bar> \<le> pow2 k" "- 1074 \<le> k"
  shows "\<bar>round_binary64 q\<bar> \<le> pow2 k"
proof -
  have pos: "\<bar>round_binary64 p\<bar> \<le> pow2 k" if "0 < p" "p \<le> pow2 k" for p
    using rb_le_pow2 [OF that assms(2)] rb_nonneg [of p] that(1) by simp
  consider "q = 0" | "0 < q" | "q < 0" by linarith
  then show ?thesis
  proof cases
    case 1
    then show ?thesis using pow2_pos [of k] by (simp add: rb_zero less_imp_le)
  next
    case 2
    then show ?thesis using pos [of q] assms(1) by simp
  next
    case 3
    then have "\<bar>round_binary64 (- q)\<bar> \<le> pow2 k" using pos [of "- q"] assms(1) by simp
    then show ?thesis by (simp add: rb_minus)
  qed
qed

lemma overflow_threshold_pow2: "overflow_threshold = pow2 1024"
  by (simp add: overflow_threshold_def pow2_def)

text \<open>Dividing an integer below \<open>2\<^sup>1\<^sup>0\<^sup>2\<^sup>4\<close> by five does not overflow.\<close>

lemma truediv_by_five:
  assumes "\<bar>n\<bar> < 2 ^ 1024"
  shows "num_truediv (I n) (I 5) = Inr (F (Fin (round_binary64 (of_int n / 5))))"
proof -
  have "(of_int \<bar>n\<bar> :: rat) < of_int (2 ^ 1024)" using assms by (simp only: of_int_less_iff)
  then have "\<bar>of_int n / 5 :: rat\<bar> \<le> 2 ^ 1024 / 4" by simp
  also have "\<dots> = pow2 1022" by (simp add: pow2_def)
  finally have "\<bar>round_binary64 (of_int n / 5)\<bar> \<le> pow2 1022" by (rule rb_abs_le) simp
  also have "\<dots> < overflow_threshold"
    unfolding overflow_threshold_pow2 by (rule pow2_strict_mono) simp
  finally show ?thesis by (simp add: Let_def)
qed

lemma int_to_float_one: "int_to_float 1 = Inr (Fin 1)"
  by (simp add: int_to_float_def float_eval)

lemma to_float_nonpos: "q \<le> 0 \<Longrightarrow> flt (Fin 0) (to_float q) = False"
  using rb_nonpos [of q] overflow_threshold_pos by (simp add: to_float_def Let_def)

lemma years_old_int:
  "map_of source ''year'' = Some (PInt y) \<Longrightarrow> years_old (PDict source) = Inr (I (2025 - y))"
  by (simp add: years_old_def bind_simps)

lemma years_old_missing:
  "map_of source ''year'' = None \<Longrightarrow> years_old (PDict source) = Inr (I 0)"
  by (simp add: years_old_def bind_simps)

lemma recency_score_int:
  assumes "map_of source ''year'' = Some (PInt y)" "\<bar>2025 - y\<bar> < 2 ^ 1024"
  shows "recency_score (PDict source)
    = Inr (py_max (I 0) (F (to_float (1 - round_binary64 (of_int (2025 - y) / 5)))))"
  using truediv_by_five [OF assms(2)]
  by (simp add: recency_score_def years_old_int [OF assms(1)] bind_simps int_to_float_one fsub_def)

lemma recency_score_missing:
  assumes "map_of source ''year'' = None"
  shows "recency_score (PDict source) = Inr (F (Fin 1))"
  by (simp add: recency_score_def years_old_missing [OF assms] bind_simps int_to_float_one
      fsub_def py_max_def num_lt_def float_eval)

lemma recency_score_old:
  assumes "map_of source ''year'' = Some (PInt y)" "5 \<le> 2025 - y" "2025 - y < 2 ^ 1024"
  shows "recency_score (PDict source) = Inr (I 0)"
proof -
  have "pow2 0 \<le> (of_int (2025 - y) / 5 :: rat)"
    using assms(2) by (simp add: pow2_def)
  then have "pow2 0 \<le> round_binary64 (of_int (2025 - y) / 5)" by (rule rb_ge_pow2) simp
  then have "1 - round_binary64 (of_int (2025 - y) / 5) \<le> 0" by (simp add: pow2_def)
  then have "flt (Fin 0) (to_float (1 - round_binary64 (of_int (2025 - y) / 5))) = False"
    by (rule to_float_nonpos)
  moreover have "\<bar>2025 - y\<bar> < 2 ^ 1024" using assms(2,3) by simp
  ultimately show ?thesis
    by (simp add: recency_score_int [OF assms(1)] py_max_def num_lt_def)
qed

lemma recency_score_not_negative:
  assumes "recency_score sd = Inr rs"
  shows "rs = I 0 \<or> (\<exists>i. rs = I i \<and> 0 < i) \<or> (\<exists>x. rs = F x \<and> flt (Fin 0) x)"
proof -
  obtain r where "rs = py_max (I 0) r"
    using assms by (auto simp: recency_score_def bind_eq_Inr)
  then show ?thesis
    by (cases r) (auto simp: py_max_def num_lt_def)
qed

text \<open>
  C6. With the code's reference year 2025 and an integer \<open>year\<close> (of a size that true division
  accepts), \<open>years_old\<close> is \<open>2025 - year\<close> and the recency component is
  \<^verbatim>\<open>max(0, 1 - years_old / 5)\<close>, each float operation rounded once. A record without a
  \<open>year\<close> has \<open>years_old = 0\<close> and recency \<open>1.0\<close>. From five years of age on the component is the
  integer \<open>0\<close>, and it is never negative.
\<close>

theorem recency_component:
  "(\<forall>source y. map_of source ''year'' = Some (PInt y) \<and> \<bar>2025 - y\<bar> < 2 ^ 1024 \<longrightarrow>
      years_old (PDict source) = Inr (I (2025 - y))
      \<and> recency_score (PDict source)
          = Inr (py_max (I 0) (F (to_float (1 - round_binary64 (of_int (2025 - y) / 5))))))
   \<and> (\<forall>source. map_of source ''year'' = None \<longrightarrow>
      years_old (PDict source) = Inr (I 0) \<and> recency_score (PDict source) = Inr (F (Fin 1)))
   \<and> (\<forall>source y. map_of source ''year'' = Some (PInt y) \<and> 5 \<le> 2025 - y \<and> 2025 - y < 2 ^ 1024 \<longrightarrow>
      recency_score (PDict source) = Inr (I 0))
   \<and> (\<forall>sd rs. recency_score sd = Inr rs \<longrightarrow>
      rs = I 0 \<or> (\<exists>i. rs = I i \<and> 0 < i) \<or> (\<exists>x. rs = F x \<and> flt (Fin 0) x))"
  using years_old_int recency_score_int years_old_missing recency_score_missing
    recency_score_old recency_score_not_negative
  by blast

theorem recency_component_witness:
  "years_old (PDict [(''type'', PStr ''primary''), (''year'', PInt 2015)]) = Inr (I 10)
   \<and> recency_score (PDict [(''type'', PStr ''primary''), (''year'', PInt 2015)]) = Inr (I 0)
   \<and> years_old (PDict [(''type'', PStr ''primary'')]) = Inr (I 0)
   \<and> recency_score (PDict [(''type'', PStr ''primary'')]) = Inr (F (Fin 1))"
proof -
  let ?old = "[(''type'', PStr ''primary''), (''year'', PInt 2015)]"
  let ?undated = "[(''type'', PStr ''primary'')]"
  have "map_of ?old ''year'' = Some (PInt 2015) \<and> \<bar>2025 - 2015\<bar> < (2 ^ 1024 :: int)"
    by simp
  with recency_component have "years_old (PDict ?old) = Inr (I (2025 - 2015))"
    by blast
  moreover have "map_of ?old ''year'' = Some (PInt 2015) \<and> (5::int) \<le> 2025 - 2015
      \<and> 2025 - 2015 < (2 ^ 1024 :: int)"
    by simp
  with recency_component have "recency_score (PDict ?old) = Inr (I 0)"
    by blast
  moreover have "map_of ?undated ''year'' = None"
    by simp
  with recency_component have "years_old (PDict ?undated) = Inr (I 0)
      \<and> recency_score (PDict ?undated) = Inr (F (Fin 1))"
    by blast
  ultimately show ?thesis by simp
qed

subsection \<open>A primary, academic, current-year source\<close>

lemma weighted_score_primary_academic_2025:
  assumes "map_of source ''type'' = Some (PStr ''primary'')"
    "map_of source ''authority'' = Some (PStr ''academic'')"
    "map_of source ''year'' = Some (PInt 2025)"
  shows "weighted_score (PDict source) = Inr (F (Fin (8376695306909123 / 9007199254740992)))"
  by (simp add: assms scorer_defs float_eval)

text \<open>
  C10. A source of type \<open>primary\<close> and authority \<open>academic\<close> dated 2025, the code's reference
  year, scores the float \<open>0.93\<close>: the sum \<open>0.4 * 0.9 + 0.3 * 1.0 + 0.3 * 0.9\<close> in binary64
  arithmetic is the double nearest to 93/100.
\<close>

theorem primary_academic_current_year_score:
  assumes "read_input_file env file_path = Inr (PDict record)"
    and "map_of record ''error'' = None"
    and "map_of record ''confidence_score'' = Some (PDict sec)"
    and "map_of sec ''source'' = Some (PDict source)"
    and "map_of source ''type'' = Some (PStr ''primary'')"
    and "map_of source ''authority'' = Some (PStr ''academic'')"
    and "map_of source ''year'' = Some (PInt 2025)"
  shows "confidence_score_source env file_path = Inr (PFloat (to_float (93 / 100)))
    \<and> to_float (93 / 100) = Fin (8376695306909123 / 9007199254740992)"
proof -
  have "source \<noteq> []" using assms(5) by auto
  then have "confidence_score_source env file_path
      = Inr (PFloat (Fin (8376695306909123 / 9007199254740992)))"
    using assms(1-4) weighted_score_primary_academic_2025 [OF assms(5-7)]
    by (simp add: confidence_score_source_def bind_simps)
  moreover have "to_float (93 / 100) = Fin (8376695306909123 / 9007199254740992)"
    by (simp add: float_eval)
  ultimately show ?thesis by simp
qed

theorem primary_academic_current_year_score_witness:
  "confidence_score_source
     (\<lambda>name. Loaded (PDict [(''confidence_score'', PDict [(''source'', PDict
        [(''type'', PStr ''primary''), (''year'', PInt 2025), (''authority'', PStr ''academic''),
         (''content'', PStr ''survey data'')])])]))
     (PStr ''input.json'') = Inr (PFloat (Fin (8376695306909123 / 9007199254740992)))"
  using primary_academic_current_year_score
    [of "(\<lambda>name. Loaded (PDict [(''confidence_score'', PDict [(''source'', PDict
        [(''type'', PStr ''primary''), (''year'', PInt 2025), (''authority'', PStr ''academic''),
         (''content'', PStr ''survey data'')])])]))"
      "PStr ''input.json''"
      "[(''confidence_score'', PDict [(''source'', PDict
        [(''type'', PStr ''primary''), (''year'', PInt 2025), (''authority'', PStr ''academic''),
         (''content'', PStr ''survey data'')])])]"
      "[(''source'', PDict
        [(''type'', PStr ''primary''), (''year'', PInt 2025), (''authority'', PStr ''academic''),
         (''content'', PStr ''survey data'')])]"
      "[(''type'', PStr ''primary''), (''year'', PInt 2025), (''authority'', PStr ''academic''),
         (''content'', PStr ''survey data'')]"]
  by simp

section \<open>The consensus evaluator cannot score a source\<close>

text \<open>
  \<^verbatim>\<open>evaluate_consensus\<close> hands the scorer a dict; the scorer passes it to \<^verbatim>\<open>open\<close>, whose
  \<^verbatim>\<open>TypeError\<close> nothing catches. So the first source of any query ends the call.
\<close>

lemma scorer_rejects_dict: "confidence_score_source env (PDict kvs) = Inl TypeError"
  by (simp add: confidence_score_source_def bind_simps)

lemma high_conf_sources_raises:
  assumes "items \<noteq> []"
  shows "high_conf_sources env items = Inl TypeError
    \<or> high_conf_sources env items = Inl AttributeError"
proof -
  obtain source rest where "items = source # rest"
    using assms by (cases items) auto
  then show ?thesis
    by (cases source) (simp_all add: bind_simps scorer_rejects_dict)
qed

text \<open>
  Scored on their own, the sources of the examples for C4 and C5 are on either side of the
  0.7 gate: 0.18 and 0.93.
\<close>

lemma low_confidence_example:
  "weighted_score (PDict [(''type'', PStr ''opinion''), (''year'', PInt 2000),
      (''authority'', PStr ''blog''), (''content'', PStr ''prices rise'')])
     = Inr (F (Fin (3242591731706757 / 18014398509481984)))
   \<and> is_high_confidence (PFloat (Fin (3242591731706757 / 18014398509481984))) = False"
  by (simp add: scorer_defs float_eval)

lemma high_confidence_example:
  "weighted_score (PDict [(''type'', PStr ''primary''), (''year'', PInt 2025),
      (''authority'', PStr ''academic''), (''content'', PStr ''Analysts agree that prices rise.'')])
     = Inr (F (Fin (8376695306909123 / 9007199254740992)))
   \<and> is_high_confidence (PFloat (Fin (8376695306909123 / 9007199254740992)))"
  by (simp add: weighted_score_primary_academic_2025 float_eval)

text \<open>
  C1 (the code fails it). Every component should end in a typed result or a condition
  string, and a query with a claim and sources should get a verdict. Here a well-formed
  record with one claim and one source makes \<^const>\<open>evaluate_consensus\<close> raise \<^verbatim>\<open>TypeError\<close>.
\<close>

theorem evaluate_consensus_raises:
  "evaluate_consensus
     (\<lambda>name. Loaded (PDict [(''consensus_eval'', PDict
        [(''claim'', PStr ''the sky is blue''),
         (''sources'', PList [PDict
            [(''type'', PStr ''secondary''), (''year'', PInt 2024),
             (''authority'', PStr ''government''),
             (''content'', PStr ''the sky is blue'')]])])]))
     (PStr ''input.json'')
   = Inl TypeError"
  by (simp add: evaluate_consensus_def bind_simps scorer_rejects_dict)

text \<open>
  C4 (the code fails it). With a claim and only low-confidence sources the verdict should
  be \<open>no_consensus\<close>. The call raises \<^verbatim>\<open>TypeError\<close> before any score exists.
\<close>

theorem evaluate_consensus_low_confidence_raises:
  "evaluate_consensus
     (\<lambda>name. Loaded (PDict [(''consensus_eval'', PDict
        [(''claim'', PStr ''prices rise''),
         (''sources'', PList [PDict
            [(''type'', PStr ''opinion''), (''year'', PInt 2000),
             (''authority'', PStr ''blog''),
             (''content'', PStr ''prices rise'')]])])]))
     (PStr ''input.json'')
   = Inl TypeError"
  by (simp add: evaluate_consensus_def bind_simps scorer_rejects_dict)

text \<open>
  C5 (the code fails it). Claim \<open>prices rise\<close> with one primary, academic, current-year
  source whose content contains the claim should be \<open>supported\<close>. The call raises
  \<^verbatim>\<open>TypeError\<close>.
\<close>

theorem evaluate_consensus_supported_example_raises:
  "evaluate_consensus
     (\<lambda>name. Loaded (PDict [(''consensus_eval'', PDict
        [(''claim'', PStr ''prices rise''),
         (''sources'', PList [PDict
            [(''type'', PStr ''primary''), (''year'', PInt 2025),
             (''authority'', PStr ''academic''),
             (''content'', PStr ''Analysts agree that prices rise.'')]])])]))
     (PStr ''input.json'')
   = Inl TypeError"
  by (simp add: evaluate_consensus_def bind_simps scorer_rejects_dict)

section \<open>The consensus tally\<close>

text \<open>
  A text that contains \<open>not\<close> followed by the claim contains the claim, and the loop tests
  for the claim first: the opposing branch is never taken.
\<close>

lemma contains_sublist: "contains sub s = sublist sub s"
  by (induction s) (simp_all add: sublist_Cons_right)

lemma contains_negation_contains:
  assumes "contains (''not '' @ c) s" shows "contains c s"
proof -
  obtain ps ss where "s = ps @ (''not '' @ c) @ ss"
    using assms by (auto simp: contains_sublist sublist_def)
  then have "s = (ps @ ''not '') @ c @ ss" by simp
  then show ?thesis unfolding contains_sublist sublist_def by blast
qed

lemma count_votes_no_opposition:
  "count_votes claim sources (a, b) = Inr (a', b') \<Longrightarrow> b' = b \<and> a \<le> a'"
proof (induction sources arbitrary: a)
  case Nil
  then show ?case by simp
next
  case (Cons src rest)
  from Cons.prems obtain content cl where
    step: "(if contains cl content then count_votes claim rest (a + 1, b)
       else if contains (''not '' @ cl) content then count_votes claim rest (a, b + 1)
       else count_votes claim rest (a, b)) = Inr (a', b')"
    by (auto simp: bind_eq_Inr)
  show ?case
  proof (cases "contains cl content")
    case True
    then have "count_votes claim rest (a + 1, b) = Inr (a', b')" using step by simp
    then show ?thesis using Cons.IH [of "a + 1"] by simp
  next
    case False
    then have "contains (''not '' @ cl) content = False"
      using contains_negation_contains [of cl content] by auto
    then have "count_votes claim rest (a, b) = Inr (a', b')" using step False by simp
    then show ?thesis using Cons.IH [of a] by simp
  qed
qed

lemma verdict_without_opposition: "verdict s 0 \<noteq> Inr (PStr ''disputed'')"
proof (cases "s = 0")
  case True
  then show ?thesis by (simp add: verdict_def)
next
  case False
  have "round_binary64 1 = 1" by (simp add: rb_eval round_half_even_def)
  moreover have "fle (to_float (8 / 10)) (Fin 1)" by (simp add: float_eval)
  ultimately show ?thesis
    using False by (simp add: verdict_def Let_def overflow_threshold_def bind_simps num_le_def)
qed

lemma py_iter_truthy: "py_iter v = Inr items \<Longrightarrow> py_not v = False \<Longrightarrow> items \<noteq> []"
  by (cases v) auto

lemma evaluate_consensus_without_error:
  assumes "read_input_file env file_path = Inr data" "py_in ''error'' data \<noteq> Inr True"
    and "evaluate_consensus env file_path = Inr v"
  shows "v = PStr ''No claim or sources provided''"
proof -
  have "py_in ''error'' data = Inr False \<or> (\<exists>e. py_in ''error'' data = Inl e)"
    using assms(2) by (cases "py_in ''error'' data") auto
  then show ?thesis
  proof
    assume "\<exists>e. py_in ''error'' data = Inl e"
    then show ?thesis using assms(1,3) by (auto simp: evaluate_consensus_def bind_simps)
  next
    assume no: "py_in ''error'' data = Inr False"
    show ?thesis
    proof (rule ccontr)
      assume other: "v \<noteq> PStr ''No claim or sources provided''"
      obtain sources items high where "py_not sources = False" "py_iter sources = Inr items"
        "high_conf_sources env items = Inr high"
        using assms(1,3) no other
        by (auto simp: evaluate_consensus_def bind_simps bind_eq_Inr split: if_splits)
      then show False
        using high_conf_sources_raises [of items env] py_iter_truthy [of sources items] by auto
    qed
  qed
qed

text \<open>
  The only way to the answer \<open>disputed\<close> is a record whose \<open>error\<close> entry is that very text.
\<close>

lemma py_getitem_Inr: "py_getitem data k = Inr v \<Longrightarrow> py_in k data = Inr True"
  by (cases data) (auto split: option.splits)

lemma evaluate_consensus_disputed_iff:
  "evaluate_consensus env file_path = Inr (PStr ''disputed'')
    \<longleftrightarrow> (\<exists>data. read_input_file env file_path = Inr data
          \<and> py_getitem data ''error'' = Inr (PStr ''disputed''))"
proof
  assume d: "evaluate_consensus env file_path = Inr (PStr ''disputed'')"
  then obtain data where data: "read_input_file env file_path = Inr data"
    by (auto simp: evaluate_consensus_def bind_eq_Inr)
  have "py_in ''error'' data = Inr True"
    using evaluate_consensus_without_error [OF data _ d] by auto
  then have "py_getitem data ''error'' = Inr (PStr ''disputed'')"
    using d data by (simp add: evaluate_consensus_def bind_simps)
  then show "\<exists>data. read_input_file env file_path = Inr data
      \<and> py_getitem data ''error'' = Inr (PStr ''disputed'')"
    using data by blast
next
  assume "\<exists>data. read_input_file env file_path = Inr data
      \<and> py_getitem data ''error'' = Inr (PStr ''disputed'')"
  then obtain data where data: "read_input_file env file_path = Inr data"
    and item: "py_getitem data ''error'' = Inr (PStr ''disputed'')"
    by blast
  then show "evaluate_consensus env file_path = Inr (PStr ''disputed'')"
    using py_getitem_Inr [OF item] by (simp add: evaluate_consensus_def bind_simps)
qed

text \<open>
  C2 (the code fails it). A retained source whose content contains \<open>not\<close> followed by the
  claim should count as opposing. The loop of lines 122 to 127 counts it as supporting:
  the pair returned is \<open>(support_count, oppose_count) = (1, 0)\<close>.
\<close>

theorem negated_claim_counted_as_support:
  "count_votes (PStr ''safe to drink'')
     [PDict [(''type'', PStr ''primary''), (''year'', PInt 2025), (''authority'', PStr ''academic''),
             (''content'', PStr ''The water is not safe to drink.'')]] (0, 0)
   = Inr (1, 0)"
  by (simp add: bind_simps string_eval)

text \<open>
  C3 (amended). Unless the record's \<open>error\<close> entry is itself the text \<open>disputed\<close>,
  \<^const>\<open>evaluate_consensus\<close> never returns \<open>disputed\<close>; and whatever sources reach the
  tally, a content that contains \<open>not\<close> followed by the claim is counted as supporting, the
  opposing count stays zero and the verdict for such a tally is not \<open>disputed\<close>.
\<close>

theorem never_disputed:
  "(\<forall>env file_path data.
      read_input_file env file_path = Inr data
      \<and> py_getitem data ''error'' \<noteq> Inr (PStr ''disputed'') \<longrightarrow>
      evaluate_consensus env file_path \<noteq> Inr (PStr ''disputed''))
   \<and> (\<forall>claim sources support oppose.
      count_votes claim sources (0, 0) = Inr (support, oppose) \<longrightarrow>
      oppose = 0 \<and> 0 \<le> support \<and> verdict support oppose \<noteq> Inr (PStr ''disputed''))"
proof (intro conjI allI impI)
  fix env file_path data
  assume "read_input_file env file_path = Inr data
    \<and> py_getitem data ''error'' \<noteq> Inr (PStr ''disputed'')"
  then show "evaluate_consensus env file_path \<noteq> Inr (PStr ''disputed'')"
    by (auto simp: evaluate_consensus_disputed_iff)
next
  fix claim sources support oppose
  assume c: "count_votes claim sources (0, 0) = Inr (support, oppose)"
  then show "oppose = 0" "0 \<le> support" using count_votes_no_opposition [OF c] by simp_all
  then show "verdict support oppose \<noteq> Inr (PStr ''disputed'')"
    by (simp add: verdict_without_opposition)
qed

theorem never_disputed_witness:
  "evaluate_consensus
     (\<lambda>name. Loaded (PDict [(''consensus_eval'', PDict
        [(''claim'', PStr ''Proven''),
         (''sources'', PList [PDict
            [(''type'', PStr ''primary''), (''year'', PInt 2025),
             (''authority'', PStr ''academic''),
             (''content'', PStr ''The effect is NOT proven.'')]])])]))
     (PStr ''input.json'') \<noteq> Inr (PStr ''disputed'')
   \<and> evaluate_consensus (\<lambda>name. Loaded (PDict [(''error'', PStr ''unreadable'')]))
     (PStr ''input.json'') \<noteq> Inr (PStr ''disputed'')
   \<and> evaluate_consensus (\<lambda>name. NotFound) (PStr ''input.json'') \<noteq> Inr (PStr ''disputed'')
   \<and> contains (''not '' @ lower ''Proven'') (lower ''The effect is NOT proven.'')
   \<and> count_votes (PStr ''Proven'')
        [PDict [(''type'', PStr ''primary''), (''year'', PInt 2025),
                (''authority'', PStr ''academic''),
                (''content'', PStr ''The effect is NOT proven.'')]] (0, 0)
      = Inr (1, 0)
   \<and> verdict 1 0 \<noteq> Inr (PStr ''disputed'')"
proof -
  let ?source = "PDict [(''type'', PStr ''primary''), (''year'', PInt 2025),
             (''authority'', PStr ''academic''),
             (''content'', PStr ''The effect is NOT proven.'')]"
  let ?doc = "PDict [(''consensus_eval'', PDict
        [(''claim'', PStr ''Proven''), (''sources'', PList [?source])])]"
  have "read_input_file (\<lambda>name. Loaded ?doc) (PStr ''input.json'') = Inr ?doc
    \<and> py_getitem ?doc ''error'' \<noteq> Inr (PStr ''disputed'')"
    by simp
  with never_disputed
  have a: "evaluate_consensus (\<lambda>name. Loaded ?doc) (PStr ''input.json'') \<noteq> Inr (PStr ''disputed'')"
    by blast
  have "read_input_file (\<lambda>name. Loaded (PDict [(''error'', PStr ''unreadable'')])) (PStr ''input.json'')
      = Inr (PDict [(''error'', PStr ''unreadable'')])
    \<and> py_getitem (PDict [(''error'', PStr ''unreadable'')]) ''error'' \<noteq> Inr (PStr ''disputed'')"
    by simp
  with never_disputed
  have b: "evaluate_consensus (\<lambda>name. Loaded (PDict [(''error'', PStr ''unreadable'')]))
      (PStr ''input.json'') \<noteq> Inr (PStr ''disputed'')"
    by blast
  have "read_input_file (\<lambda>name. NotFound) (PStr ''input.json'')
      = Inr (PDict [(''error'', PStr ''File not found'')])
    \<and> py_getitem (PDict [(''error'', PStr ''File not found'')]) ''error''
      \<noteq> Inr (PStr ''disputed'')"
    by simp
  with never_disputed
  have c: "evaluate_consensus (\<lambda>name. NotFound) (PStr ''input.json'') \<noteq> Inr (PStr ''disputed'')"
    by blast
  have d: "contains (''not '' @ lower ''Proven'') (lower ''The effect is NOT proven.'')"
    by (simp add: string_eval)
  have e: "count_votes (PStr ''Proven'') [?source] (0, 0) = Inr (1, 0)"
    by (simp add: bind_simps string_eval)
  with never_disputed have "verdict 1 0 \<noteq> Inr (PStr ''disputed'')"
    by blast
  then show ?thesis using a b c d e by simp
qed

text \<open>The claim as stated fails on a record whose \<open>error\<close> entry is \<open>disputed\<close>.\<close>

theorem evaluate_consensus_error_passthrough:
  "evaluate_consensus (\<lambda>name. Loaded (PDict [(''error'', PStr ''disputed'')])) (PStr ''input.json'')
    = Inr (PStr ''disputed'')"
  by (simp add: evaluate_consensus_def bind_simps)

section \<open>The decision rules\<close>

lemma count_technical_texts:
  "count_technical (map PStr kwds) = Inr (spec_keyword_points kwds)"
  by (induction kwds) (simp_all add: spec_keyword_points_def technical_terms_def bind_simps)

lemma complexity_score_spec:
  assumes "map_of query ''keywords'' = map_option (\<lambda>ks. PList (map PStr ks)) kwds"
    and "map_of query ''domain'' = map_option PStr d"
    and "map_of query ''urgency'' = map_option PStr u"
  shows "complexity_score (PDict query)
    = Inr (spec_complexity (case kwds of None \<Rightarrow> [] | Some ks \<Rightarrow> ks) d u)"
proof -
  have k: "bind (py_get (PDict query) ''keywords'' (PList [])) (\<lambda>kw. bind (py_iter kw) count_technical)
      = Inr (spec_keyword_points (case kwds of None \<Rightarrow> [] | Some ks \<Rightarrow> ks))"
    using count_technical_texts [of "[]"]
    by (cases kwds) (simp_all add: assms(1) bind_simps count_technical_texts)
  have dw: "bind (py_get (PDict query) ''domain'' (PStr ''general'')) (\<lambda>x. table_get domains x 0)
      = Inr (spec_domain_weight (case d of None \<Rightarrow> ''general'' | Some x \<Rightarrow> x))"
    by (cases d) (simp_all add: assms(2) bind_simps domains_def spec_domain_weight_def)
  have um: "bind (py_get (PDict query) ''urgency'' (PStr ''normal'')) (\<lambda>x. table_get urgency_modifier x 0)
      = Inr (spec_urgency_modifier (case u of None \<Rightarrow> ''normal'' | Some x \<Rightarrow> x))"
    by (cases u) (simp_all add: assms(3) bind_simps urgency_modifier_def spec_urgency_modifier_def)
  show ?thesis
    using k dw um
    by (auto simp: complexity_score_def spec_complexity_def bind_eq_Inr)
qed

text \<open>
  C9. For a non-empty query whose keywords are texts and whose domain and urgency are texts
  or absent, the mode is \<open>light\<close> exactly when the specification's complexity is at most 1
  (negative scores included), \<open>moderate\<close> exactly when it is 2 or 3, and \<open>deep\<close> exactly
  when it is at least 4.
\<close>

theorem decision_rule_engine_mode:
  assumes "read_input_file env file_path = Inr (PDict record)"
    and "map_of record ''error'' = None"
    and "map_of record ''decision_rule'' = Some (PDict sec)"
    and "map_of sec ''query'' = Some (PDict query)"
    and "query \<noteq> []"
    and "map_of query ''keywords'' = map_option (\<lambda>ks. PList (map PStr ks)) kwds"
    and "map_of query ''domain'' = map_option PStr d"
    and "map_of query ''urgency'' = map_option PStr u"
    and "c = spec_complexity (case kwds of None \<Rightarrow> [] | Some ks \<Rightarrow> ks) d u"
  shows "decision_rule_engine env file_path
      = Inr (PStr (if c \<le> 1 then ''light'' else if c \<le> 3 then ''moderate'' else ''deep''))
    \<and> (decision_rule_engine env file_path = Inr (PStr ''light'')) = (c \<le> 1)
    \<and> (decision_rule_engine env file_path = Inr (PStr ''moderate'')) = (c = 2 \<or> c = 3)
    \<and> (decision_rule_engine env file_path = Inr (PStr ''deep'')) = (4 \<le> c)"
proof -
  have "decision_rule_engine env file_path = Inr (PStr (analysis_mode c))"
    using assms(1-5) complexity_score_spec [OF assms(6-8)]
    by (simp add: decision_rule_engine_def bind_simps assms(9))
  then show ?thesis by (auto simp: analysis_mode_def)
qed

theorem decision_rule_engine_mode_witness:
  "decision_rule_engine
     (\<lambda>name. Loaded (PDict [(''decision_rule'', PDict [(''query'', PDict
        [(''keywords'', PList [PStr ''algorithm'']), (''domain'', PStr ''science''),
         (''urgency'', PStr ''high'')])])]))
     (PStr ''input.json'') = Inr (PStr ''moderate'')
   \<and> spec_complexity [''algorithm''] (Some ''science'') (Some ''high'') = 2"
proof -
  have c: "spec_complexity [''algorithm''] (Some ''science'') (Some ''high'') = 2"
    by (simp add: spec_complexity_def spec_keyword_points_def spec_domain_weight_def
        spec_urgency_modifier_def string_eval)
  show ?thesis
    using decision_rule_engine_mode
      [of "(\<lambda>name. Loaded (PDict [(''decision_rule'', PDict [(''query'', PDict
        [(''keywords'', PList [PStr ''algorithm'']), (''domain'', PStr ''science''),
         (''urgency'', PStr ''high'')])])]))"
        "PStr ''input.json''"
        "[(''decision_rule'', PDict [(''query'', PDict
        [(''keywords'', PList [PStr ''algorithm'']), (''domain'', PStr ''science''),
         (''urgency'', PStr ''high'')])])]"
        "[(''query'', PDict
        [(''keywords'', PList [PStr ''algorithm'']), (''domain'', PStr ''science''),
         (''urgency'', PStr ''high'')])]"
        "[(''keywords'', PList [PStr ''algorithm'']), (''domain'', PStr ''science''),
         (''urgency'', PStr ''high'')]"
        "Some [''algorithm'']" "Some ''science''" "Some ''high''" 2]
      c
    by simp
qed

section \<open>The hybrid reasoning engine\<close>

lemma positive_outcomes_texts:
  "positive_outcomes (map PStr texts) = Inr (int (spec_increases texts))"
  by (induction texts) (simp_all add: spec_increases_def bind_simps)

lemma spec_increases_le: "spec_increases texts \<le> length texts"
  by (simp add: spec_increases_def)

lemma observations_texts:
  "list_all2 has_observation items texts \<Longrightarrow> observations items = Inr (map PStr texts)"
proof (induction items texts rule: list_all2_induct)
  case Nil
  then show ?case by simp
next
  case (Cons d ds t ts)
  then show ?case
    by (cases d) (auto simp: bind_simps split: option.splits)
qed

text \<open>
  Below \<open>2\<^sup>5\<^sup>3\<close> items the rounded quotient is above one half exactly when the exact one is.
\<close>

lemma half_threshold:
  assumes "0 \<le> p" "p \<le> t" "0 < t" "t < 2 ^ 53"
  shows "(1 / 2 < round_binary64 (of_int p / of_int t)) = (t < 2 * p)"
proof (cases "t < 2 * p")
  case True
  have tpos: "(0::rat) < of_int t" using assms(3) by simp
  have "1 / 2 < round_binary64 (of_int p / of_int t)"
  proof (cases "p = t")
    case True
    then have "round_binary64 (of_int p / of_int t) = round_binary64 1" using assms(3) by simp
    also have "\<dots> = 1" by (simp add: rb_eval round_half_even_def)
    finally show ?thesis by simp
  next
    case False
    then have "p < t" using assms(2) by simp
    then have "(of_int p :: rat) < of_int t" by (simp only: of_int_less_iff)
    then have lt1: "(of_int p / of_int t :: rat) < 1" using tpos by simp
    have "(of_int t :: rat) < of_int (2 ^ 53)" using assms(4) by (simp only: of_int_less_iff)
    then have "(of_int t :: rat) < 2 ^ 53" by simp
    then have "1 / 2 ^ 53 < 1 / (of_int t :: rat)"
      using tpos by (simp add: field_simps)
    then have "(1 / 2 + 1 / 2 ^ 54 :: rat) < 1 / 2 + (1 / of_int t) / 2" by simp
    also have "\<dots> = (of_int t + 1) / 2 / of_int t"
      using tpos by (simp add: field_simps)
    also have "\<dots> \<le> of_int p / of_int t"
    proof -
      have "t + 1 \<le> 2 * p" using True by simp
      then have "(of_int (t + 1) :: rat) \<le> of_int (2 * p)" by (simp only: of_int_le_iff)
      then have "(of_int t + 1) / 2 \<le> (of_int p :: rat)" by simp
      then show ?thesis using tpos by (intro divide_right_mono) simp_all
    qed
    finally have "1 / 2 + 1 / 2 ^ 54 < (of_int p / of_int t :: rat)" .
    then show ?thesis using lt1 by (rule rb_gt_half)
  qed
  then show ?thesis using True by simp
next
  case False
  have tpos: "(0::rat) < of_int t" using assms(3) by simp
  have "2 * p \<le> t" using False by simp
  then have "(of_int (2 * p) :: rat) \<le> of_int t" by (simp only: of_int_le_iff)
  then have le: "(of_int p / of_int t :: rat) \<le> pow2 (- 1)"
    using tpos by (simp add: pow2_def field_simps)
  have "round_binary64 (of_int p / of_int t) \<le> 1 / 2"
  proof (cases "p = 0")
    case True
    then show ?thesis by (simp add: rb_zero)
  next
    case False
    then have "(0::rat) < of_int p / of_int t" using assms(1) tpos by simp
    then have "round_binary64 (of_int p / of_int t) \<le> pow2 (- 1)"
      using le by (rule rb_le_pow2) simp
    then show ?thesis by (simp add: pow2_def)
  qed
  then show ?thesis using False by simp
qed

lemma truediv_fraction:
  assumes "0 \<le> p" "p \<le> t" "0 < t"
  shows "num_truediv (I p) (I t) = Inr (F (Fin (round_binary64 (of_int p / of_int t))))"
proof -
  have "\<bar>of_int p / of_int t :: rat\<bar> \<le> pow2 0"
    using assms by (simp add: pow2_def)
  then have "\<bar>round_binary64 (of_int p / of_int t)\<bar> \<le> pow2 0" by (rule rb_abs_le) simp
  also have "\<dots> < overflow_threshold"
    unfolding overflow_threshold_pow2 by (rule pow2_strict_mono) simp
  finally show ?thesis using assms(3) by (simp add: Let_def)
qed

lemma one_half: "to_float (5 / 10) = Fin (1 / 2)"
  by (simp add: float_eval)

lemma trend_texts:
  assumes "texts \<noteq> []" "length texts < 2 ^ 53"
  shows "trend (map PStr texts) = Inr (spec_trend texts)"
proof -
  let ?p = "int (spec_increases texts)" and ?t = "int (length texts)"
  let ?r = "round_binary64 (of_int ?p / of_int ?t)"
  have p: "0 \<le> ?p" "?p \<le> ?t" using spec_increases_le [of texts] by simp_all
  have t: "0 < ?t" "?t < 2 ^ 53" using assms by simp_all
  have td: "num_truediv (I ?p) (I (int (length (map PStr texts)))) = Inr (F (Fin ?r))"
    using truediv_fraction [OF p t(1)] by (simp only: length_map)
  have "(1 / 2 < ?r) = (?t < 2 * ?p)"
    using p t by (rule half_threshold)
  moreover have "(?t < 2 * ?p) = (length texts < 2 * spec_increases texts)" by linarith
  ultimately have cmp: "num_lt (F (to_float (5 / 10))) (F (Fin ?r))
      = (length texts < 2 * spec_increases texts)"
    by (simp only: num_lt_def exact.simps one_half flt.simps)
  show ?thesis
    unfolding trend_def positive_outcomes_texts bind_simps td cmp spec_trend_def ..
qed

lemma hybrid_economics_price:
  assumes "read_input_file env file_path = Inr (PDict doc)"
    and "map_of doc ''error'' = None"
    and "map_of doc ''hybrid_reasoning'' = Some (PDict rd)"
    and "map_of rd ''problem'' = Some (PStr problem)"
    and "contains ''price'' (lower problem)"
    and "map_of rd ''data'' = Some (PList (PDict dp # rest))"
    and "map_of dp ''domain'' = Some (PStr ''economics'')"
    and "list_all2 has_observation (PDict dp # rest) texts"
    and "length texts < 2 ^ 53"
  shows "hybrid_reasoning_engine py_str env file_path
    = Inr (PStr (''Supply and demand govern prices. Data suggests '' @ lower problem
        @ '' '' @ spec_trend texts @ ''.''))"
proof -
  have problem: "problem \<noteq> []" using assms(5) by (auto simp: lower_def)
  have "length (PDict dp # rest) = length texts"
    using assms(8) by (rule list_all2_lengthD)
  then have texts: "texts \<noteq> []" by auto
  have obs: "observations (PDict dp # rest) = Inr (map PStr texts)"
    using assms(8) by (rule observations_texts)
  have tr: "trend (map PStr texts) = Inr (spec_trend texts)"
    using texts assms(9) by (rule trend_texts)
  show ?thesis
    unfolding hybrid_reasoning_engine_def
    by (simp add: assms(1-7) bind_simps first_domain_def first_principles_def obs tr texts problem
        del: observations.simps)
qed

text \<open>
  C8 (amended). With at least one and fewer than \<open>2\<^sup>5\<^sup>3\<close> observation texts the trend phrase
  is \<open>likely increases\<close> exactly when more than half of them contain \<open>increase\<close> once
  lowercased, and \<open>may not increase\<close> otherwise. When the first data point's domain is
  \<open>economics\<close> and the lowercased problem contains \<open>price\<close>, the conclusion is the
  economics principle, then \<open>Data suggests\<close>, the lowercased problem text and the trend
  phrase.
\<close>

theorem hybrid_reasoning_conclusion:
  "(\<forall>texts. texts \<noteq> [] \<and> length texts < 2 ^ 53 \<longrightarrow>
      trend (map PStr texts) = Inr (spec_trend texts))
   \<and> (\<forall>py_str env file_path doc rd problem dp rest texts.
      read_input_file env file_path = Inr (PDict doc)
      \<and> map_of doc ''error'' = None
      \<and> map_of doc ''hybrid_reasoning'' = Some (PDict rd)
      \<and> map_of rd ''problem'' = Some (PStr problem)
      \<and> contains ''price'' (lower problem)
      \<and> map_of rd ''data'' = Some (PList (PDict dp # rest))
      \<and> map_of dp ''domain'' = Some (PStr ''economics'')
      \<and> list_all2 has_observation (PDict dp # rest) texts
      \<and> length texts < 2 ^ 53 \<longrightarrow>
      hybrid_reasoning_engine py_str env file_path
        = Inr (PStr (''Supply and demand govern prices. Data suggests '' @ lower problem
            @ '' '' @ spec_trend texts @ ''.'')))"
  using trend_texts hybrid_economics_price by blast

theorem hybrid_reasoning_conclusion_witness:
  "trend (map PStr [''Rents increase again'', ''Wages INCREASE slowly'', ''Sales are flat''])
     = Inr ''likely increases''
   \<and> hybrid_reasoning_engine (\<lambda>v. [])
     (\<lambda>name. Loaded (PDict [(''hybrid_reasoning'', PDict
        [(''problem'', PStr ''Is the Price of wheat going up?''),
         (''data'', PList
            [PDict [(''domain'', PStr ''economics''),
                    (''observation'', PStr ''Rents increase again'')],
             PDict [(''domain'', PStr ''history''),
                    (''observation'', PStr ''Wages INCREASE slowly'')],
             PDict [(''observation'', PStr ''Sales are flat'')]])])]))
     (PStr ''input.json'')
   = Inr (PStr ''Supply and demand govern prices. Data suggests is the price of wheat going up? likely increases.'')"
proof -
  let ?texts = "[''Rents increase again'', ''Wages INCREASE slowly'', ''Sales are flat'']"
  have tr: "spec_trend ?texts = ''likely increases''"
    by (simp add: spec_trend_def spec_increases_def string_eval)
  have low: "lower ''Is the Price of wheat going up?'' = ''is the price of wheat going up?''"
    by (simp add: string_eval)
  have "?texts \<noteq> [] \<and> length ?texts < 2 ^ 53" by simp
  with hybrid_reasoning_conclusion have "trend (map PStr ?texts) = Inr (spec_trend ?texts)"
    by blast
  then show ?thesis
    using hybrid_reasoning_conclusion [THEN conjunct2, rule_format,
      where env = "(\<lambda>name. Loaded (PDict [(''hybrid_reasoning'', PDict
        [(''problem'', PStr ''Is the Price of wheat going up?''),
         (''data'', PList
            [PDict [(''domain'', PStr ''economics''),
                    (''observation'', PStr ''Rents increase again'')],
             PDict [(''domain'', PStr ''history''),
                    (''observation'', PStr ''Wages INCREASE slowly'')],
             PDict [(''observation'', PStr ''Sales are flat'')]])])]))"
      and file_path = "PStr ''input.json''"
      and doc = "[(''hybrid_reasoning'', PDict
        [(''problem'', PStr ''Is the Price of wheat going up?''),
         (''data'', PList
            [PDict [(''domain'', PStr ''economics''),
                    (''observation'', PStr ''Rents increase again'')],
             PDict [(''domain'', PStr ''history''),
                    (''observation'', PStr ''Wages INCREASE slowly'')],
             PDict [(''observation'', PStr ''Sales are flat'')]])])]"
      and rd = "[(''problem'', PStr ''Is the Price of wheat going up?''),
         (''data'', PList
            [PDict [(''domain'', PStr ''economics''),
                    (''observation'', PStr ''Rents increase again'')],
             PDict [(''domain'', PStr ''history''),
                    (''observation'', PStr ''Wages INCREASE slowly'')],
             PDict [(''observation'', PStr ''Sales are flat'')]])]"
      and problem = "''Is the Price of wheat going up?''"
      and dp = "[(''domain'', PStr ''economics''),
                    (''observation'', PStr ''Rents increase again'')]"
      and rest = "[PDict [(''domain'', PStr ''history''),
                    (''observation'', PStr ''Wages INCREASE slowly'')],
             PDict [(''observation'', PStr ''Sales are flat'')]]"
      and texts = "?texts"
      and py_str = "(\<lambda>v. [])"]
    by (simp add: tr low)
qed

text \<open>
  The claim as stated fails on the specification's own example: the conclusion holds the
  problem text in lower case, not the text as given.
\<close>

lemma oil_example:
  "hybrid_reasoning_engine (\<lambda>v. [])
     (\<lambda>name. Loaded (PDict [(''hybrid_reasoning'', PDict
        [(''problem'', PStr ''Will oil prices rise?''),
         (''data'', PList
            [PDict [(''domain'', PStr ''economics''),
                    (''observation'', PStr ''Prices increase after supply cuts'')],
             PDict [(''domain'', PStr ''economics''),
                    (''observation'', PStr ''Demand may Increase in winter'')],
             PDict [(''domain'', PStr ''economics''),
                    (''observation'', PStr ''Stocks are stable'')]])])]))
     (PStr ''input.json'')
   = Inr (PStr ''Supply and demand govern prices. Data suggests will oil prices rise? likely increases.'')"
proof -
  have low: "lower ''Will oil prices rise?'' = ''will oil prices rise?''"
    by (simp add: string_eval)
  have tr: "spec_trend [''Prices increase after supply cuts'', ''Demand may Increase in winter'',
      ''Stocks are stable''] = ''likely increases''"
    by (simp add: spec_trend_def spec_increases_def string_eval)
  show ?thesis
    using hybrid_economics_price
      [of "(\<lambda>name. Loaded (PDict [(''hybrid_reasoning'', PDict
        [(''problem'', PStr ''Will oil prices rise?''),
         (''data'', PList
            [PDict [(''domain'', PStr ''economics''),
                    (''observation'', PStr ''Prices increase after supply cuts'')],
             PDict [(''domain'', PStr ''economics''),
                    (''observation'', PStr ''Demand may Increase in winter'')],
             PDict [(''domain'', PStr ''economics''),
                    (''observation'', PStr ''Stocks are stable'')]])])]))"
        "PStr ''input.json''"
        "[(''hybrid_reasoning'', PDict
        [(''problem'', PStr ''Will oil prices rise?''),
         (''data'', PList
            [PDict [(''domain'', PStr ''economics''),
                    (''observation'', PStr ''Prices increase after supply cuts'')],
             PDict [(''domain'', PStr ''economics''),
                    (''observation'', PStr ''Demand may Increase in winter'')],
             PDict [(''domain'', PStr ''economics''),
                    (''observation'', PStr ''Stocks are stable'')]])])]"
        "[(''problem'', PStr ''Will oil prices rise?''),
         (''data'', PList
            [PDict [(''domain'', PStr ''economics''),
                    (''observation'', PStr ''Prices increase after supply cuts'')],
             PDict [(''domain'', PStr ''economics''),
                    (''observation'', PStr ''Demand may Increase in winter'')],
             PDict [(''domain'', PStr ''economics''),
                    (''observation'', PStr ''Stocks are stable'')]])]"
        "''Will oil prices rise?''"
        "[(''domain'', PStr ''economics''),
                    (''observation'', PStr ''Prices increase after supply cuts'')]"
        "[PDict [(''domain'', PStr ''economics''),
                    (''observation'', PStr ''Demand may Increase in winter'')],
             PDict [(''domain'', PStr ''economics''),
                    (''observation'', PStr ''Stocks are stable'')]]"
        "[''Prices increase after supply cuts'', ''Demand may Increase in winter'',
      ''Stocks are stable'']"
        "(\<lambda>v. [])"]
    by (simp add: low tr)
qed

theorem conclusion_lowercases_problem:
  "hybrid_reasoning_engine (\<lambda>v. [])
     (\<lambda>name. Loaded (PDict [(''hybrid_reasoning'', PDict
        [(''problem'', PStr ''Will oil prices rise?''),
         (''data'', PList
            [PDict [(''domain'', PStr ''economics''),
                    (''observation'', PStr ''Prices increase after supply cuts'')],
             PDict [(''domain'', PStr ''economics''),
                    (''observation'', PStr ''Demand may Increase in winter'')],
             PDict [(''domain'', PStr ''economics''),
                    (''observation'', PStr ''Stocks are stable'')]])])]))
     (PStr ''input.json'')
   = Inr (PStr ''Supply and demand govern prices. Data suggests will oil prices rise? likely increases.'')
   \<and> \<not> contains ''Will oil prices rise?''
       ''Supply and demand govern prices. Data suggests will oil prices rise? likely increases.''"
  using oil_example by simp

text \<open>
  The bound on the number of observations is needed: with \<open>2\<^sup>5\<^sup>3 + 1\<close> observations of which
  \<open>2\<^sup>5\<^sup>2 + 1\<close> contain \<open>increase\<close> the quotient rounds to one half, and the phrase is
  \<open>may not increase\<close> although more than half of the texts match. No list that fits in
  memory is that long.
\<close>

lemma trend_above_bound:
  "trend (map PStr (replicate (2 ^ 52 + 1) ''increase'' @ replicate (2 ^ 52) ''steady''))
     = Inr ''may not increase''
   \<and> spec_trend (replicate (2 ^ 52 + 1) ''increase'' @ replicate (2 ^ 52) ''steady'')
     = ''likely increases''"
proof -
  let ?texts = "replicate (2 ^ 52 + 1) ''increase'' @ replicate (2 ^ 52) ''steady''"
  have inc: "spec_increases ?texts = 2 ^ 52 + 1"
    by (simp add: spec_increases_def string_eval)
  have len: "length ?texts = 2 ^ 53 + 1" by simp
  have "round_binary64 (of_int (2 ^ 52 + 1) / of_int (2 ^ 53 + 1)) = 1 / 2"
    by (simp add: rb_eval round_half_even_def floor_rat_numeral)
  moreover have "num_truediv (I (2 ^ 52 + 1)) (I (2 ^ 53 + 1))
      = Inr (F (Fin (round_binary64 (of_int (2 ^ 52 + 1) / of_int (2 ^ 53 + 1)))))"
    by (rule truediv_fraction) simp_all
  ultimately have td: "num_truediv (I (int (spec_increases ?texts))) (I (int (length (map PStr ?texts))))
      = Inr (F (Fin (1 / 2)))"
    by (simp only: inc len length_map) simp
  have "trend (map PStr ?texts) = Inr ''may not increase''"
    unfolding trend_def positive_outcomes_texts bind_simps td
    by (simp add: num_lt_def float_eval)
  moreover have "spec_trend ?texts = ''likely increases''"
    unfolding spec_trend_def inc len by simp
  ultimately show ?thesis by simp
qed

end
